theory Spec2Isabelle
  imports Complex_Main
begin

section \<open>Conventions\<close>

text \<open>
  The repository holds three React components (MetropolisScene, SkyPodScene, GafferScene)
  and one class, CyberAudioEngine. Each is modelled as a record of the variables the code
  mutates and one function per method, handler or loop body, returning the updated record.

  A JavaScript \<open>number\<close> that counts (currentNote, life, a timer id) is an \<open>int\<close> or a
  \<open>nat\<close>. A number that measures time or position is a \<open>real\<close> with exact arithmetic:
  the rounding of IEEE-754 doubles is not modelled. \<open>Math.random()\<close> reads the head of
  an arbitrary sequence of reals kept in the state. What the browser and three.js compute
  (the audio clock, the raycaster, the orbit controls) enters as an input of the step that
  uses it.
\<close>

section \<open>CyberAudioEngine (MetropolisScene.tsx, lines 31-311)\<close>

datatype AudioContextState = Suspended | Running

record AudioContext =
  state :: AudioContextState
  currentTime :: real

text \<open>A gain node: its \<open>gain.value\<close> and the last \<open>gain.setTargetAtTime(target, startTime,
  timeConstant)\<close> it received.\<close>

record GainNode =
  gain :: real
  targetAtTime :: "(real \<times> real \<times> real) option"

text \<open>The sources the engine starts on the context (\<open>osc.start\<close>, \<open>noise.start\<close>): the
  three oscillators of startDrone, the looping noise of startRainNoise and startTrainRumble, the
  two sources of triggerExplosion (with their start time), and the voices of scheduleNote (the
  bass with its frequency and time, the arpeggio and the hi-hat with their time).\<close>

datatype voice =
    DroneLfo | DroneOsc real | RainNoise | TrainRumble
  | ExplosionNoise real | ExplosionSub real
  | Bass real real | Arp real | Hat real

text \<open>
  The fields of the class, then what it drives in the browser: \<open>started\<close> are the sources
  started so far (the audio graph), \<open>scheduled\<close> logs the calls \<open>scheduleNote(beatNumber,
  time)\<close> that passed its null checks, \<open>timeouts\<close> are the pending \<open>window.setTimeout\<close>
  callbacks (each is \<open>() => this.scheduler()\<close>) as pairs of id and delay, \<open>nextTimeoutId\<close>
  is the id the next \<open>setTimeout\<close> returns, \<open>random\<close> is the sequence \<open>Math.random()\<close> reads,
  and \<open>newContextState\<close> is the state the browser gives a new AudioContext.
\<close>

record engine =
  ctx :: "AudioContext option"
  masterGain :: "GainNode option"
  reverbNode :: "unit option"
  trainGain :: "GainNode option"
  isPlaying :: bool
  nextNoteTime :: real
  schedulerTimer :: "nat option"
  currentNote :: int
  started :: "voice list"
  scheduled :: "(int \<times> real) list"
  timeouts :: "(nat \<times> real) list"
  nextTimeoutId :: nat
  random :: "nat \<Rightarrow> real"
  newContextState :: AudioContextState

text \<open>\<open>tempo\<close>, \<open>lookahead\<close> and \<open>scheduleAheadTime\<close> are class fields with an initialiser
  (lines 39-41) that nothing in the repository assigns: they are constants here.\<close>

definition tempo :: real where
  "tempo = 100"

definition lookahead :: real where
  "lookahead = 25.0"

definition scheduleAheadTime :: real where
  "scheduleAheadTime = 0.1"

text \<open>The engine as \<open>new CyberAudioEngine()\<close> leaves it (lines 32-47), in a window whose
  next timeout id is 1 (the ids of \<open>setTimeout\<close> are positive).\<close>

definition new_engine :: "(nat \<Rightarrow> real) \<Rightarrow> AudioContextState \<Rightarrow> engine" where
  "new_engine rs st =
     \<lparr> ctx = None, masterGain = None, reverbNode = None, trainGain = None,
       isPlaying = False, nextNoteTime = 0, schedulerTimer = None, currentNote = 0,
       started = [], scheduled = [], timeouts = [], nextTimeoutId = 1,
       random = rs, newContextState = st \<rparr>"

text \<open>\<open>Math.random()\<close>: the head of the sequence, which moves on by one.\<close>

definition Math_random :: "engine \<Rightarrow> real \<times> engine" where
  "Math_random w = (random w 0, w\<lparr>random := (\<lambda>n. random w (Suc n))\<rparr>)"

text \<open>The remainder operator \<open>%\<close> of JavaScript on integers: the sign of the dividend.\<close>

definition js_rem :: "int \<Rightarrow> int \<Rightarrow> int" where
  "js_rem a b = sgn a * (\<bar>a\<bar> mod \<bar>b\<bar>)"

text \<open>\<open>init\<close> (lines 49-61). Its body has no \<open>await\<close>, so a call runs it to its end. The
  impulse response it fills with noise is the reverb's timbre and is left out.\<close>

definition init :: "engine \<Rightarrow> engine" where
  "init w =
     (if ctx w \<noteq> None then w
      else w\<lparr> ctx := Some \<lparr> state = newContextState w, currentTime = 0 \<rparr>,
              masterGain := Some \<lparr> gain = 0.4, targetAtTime = None \<rparr>,
              reverbNode := Some () \<rparr>)"

text \<open>\<open>startDrone\<close> (lines 183-212), \<open>startRainNoise\<close> (lines 214-238) and
  \<open>startTrainRumble\<close> (lines 157-181): the null checks and the sources started, in the order
  of the \<open>start()\<close> calls.\<close>

definition startDrone :: "engine \<Rightarrow> engine" where
  "startDrone w =
     (if ctx w = None \<or> masterGain w = None \<or> reverbNode w = None then w
      else w\<lparr>started := started w @ [DroneLfo, DroneOsc 65.41, DroneOsc (65.41 + 1)]\<rparr>)"

definition startRainNoise :: "engine \<Rightarrow> engine" where
  "startRainNoise w =
     (if ctx w = None \<or> masterGain w = None then w
      else w\<lparr>started := started w @ [RainNoise]\<rparr>)"

definition startTrainRumble :: "engine \<Rightarrow> engine" where
  "startTrainRumble w =
     (if ctx w = None \<or> masterGain w = None then w
      else w\<lparr>trainGain := Some \<lparr> gain = 0, targetAtTime = None \<rparr>,
             started := started w @ [TrainRumble]\<rparr>)"

text \<open>\<open>setTrainVolume\<close> (lines 97-101) and \<open>triggerExplosion\<close> (lines 103-143).\<close>

definition setTrainVolume :: "real \<Rightarrow> engine \<Rightarrow> engine" where
  "setTrainVolume volume w =
     (case (trainGain w, ctx w) of
        (Some g, Some c) \<Rightarrow>
          w\<lparr>trainGain := Some (g\<lparr>targetAtTime := Some (volume * 3.0, currentTime c, 0.1)\<rparr>)\<rparr>
      | _ \<Rightarrow> w)"

definition triggerExplosion :: "engine \<Rightarrow> engine" where
  "triggerExplosion w =
     (case ctx w of
        None \<Rightarrow> w
      | Some c \<Rightarrow>
          if masterGain w = None then w
          else let t = currentTime c
               in w\<lparr>started := started w @ [ExplosionNoise t, ExplosionSub t]\<rparr>)"

text \<open>A source started on the context: \<open>osc.start(...)\<close>, \<open>noise.start(...)\<close>.\<close>

definition start_source :: "voice \<Rightarrow> engine \<Rightarrow> engine" where
  "start_source v w = w\<lparr>started := started w @ [v]\<rparr>"

text \<open>\<open>scheduleNote\<close> (lines 256-310): the null checks of line 257, then its three \<open>if\<close>
  blocks in turn: the bass (lines 258-274), the arpeggio (lines 275-291) and the hi-hat
  (lines 292-309). The first \<open>Math.random()\<close> of line 275 is drawn on every call and decides
  whether the arpeggio sounds; the draws that pick its pitch and pan and that fill the
  hi-hat's noise buffer only shape the sound and are not drawn here.\<close>

definition bass_voice :: "int \<Rightarrow> real \<Rightarrow> engine \<Rightarrow> engine" where
  "bass_voice beatNumber time w =
     (if js_rem beatNumber 2 = 0
      then start_source (Bass (if js_rem beatNumber 8 = 0 then 32.70 else 65.41) time) w
      else w)"

definition arp_voice :: "int \<Rightarrow> real \<Rightarrow> engine \<Rightarrow> engine" where
  "arp_voice beatNumber time w =
     (let (r, w') = Math_random w
      in if r > 0.8 \<and> js_rem beatNumber 2 \<noteq> 0 then start_source (Arp time) w' else w')"

definition hat_voice :: "int \<Rightarrow> real \<Rightarrow> engine \<Rightarrow> engine" where
  "hat_voice beatNumber time w =
     (if js_rem beatNumber 4 = 2 then start_source (Hat time) w else w)"

definition scheduleNote :: "int \<Rightarrow> real \<Rightarrow> engine \<Rightarrow> engine" where
  "scheduleNote beatNumber time w =
     (if ctx w = None \<or> masterGain w = None \<or> reverbNode w = None then w
      else hat_voice beatNumber time
             (arp_voice beatNumber time
               (bass_voice beatNumber time
                 (w\<lparr>scheduled := scheduled w @ [(beatNumber, time)]\<rparr>))))"

text \<open>\<open>nextNote\<close> (lines 249-254).\<close>

definition nextNote :: "engine \<Rightarrow> engine" where
  "nextNote w =
     (let secondsPerBeat = 60.0 / tempo;
          w1 = w\<lparr>nextNoteTime := nextNoteTime w + 0.25 * secondsPerBeat\<rparr>;
          w2 = w1\<lparr>currentNote := currentNote w1 + 1\<rparr>
      in if currentNote w2 = 16 then w2\<lparr>currentNote := 0\<rparr> else w2)"

text \<open>The \<open>while\<close> loop of \<open>scheduler\<close> (lines 242-245). The audio clock does not move
  during one run of the callback. \<open>scheduler\<close> enters the loop only with a context; without
  one the loop function returns at once.\<close>

function scheduler_loop :: "engine \<Rightarrow> engine" where
  "scheduler_loop w =
     (case ctx w of
        None \<Rightarrow> w
      | Some c \<Rightarrow>
          if nextNoteTime w < currentTime c + scheduleAheadTime
          then scheduler_loop (nextNote (scheduleNote (currentNote w) (nextNoteTime w) w))
          else w)"
  by pat_completeness auto

text \<open>\<open>window.setTimeout\<close> and \<open>window.clearTimeout\<close>.\<close>

definition setTimeout :: "real \<Rightarrow> engine \<Rightarrow> nat \<times> engine" where
  "setTimeout delay w =
     (nextTimeoutId w,
      w\<lparr>timeouts := timeouts w @ [(nextTimeoutId w, delay)],
        nextTimeoutId := Suc (nextTimeoutId w)\<rparr>)"

definition clearTimeout :: "nat \<Rightarrow> engine \<Rightarrow> engine" where
  "clearTimeout t w = w\<lparr>timeouts := filter (\<lambda>p. fst p \<noteq> t) (timeouts w)\<rparr>"

text \<open>\<open>scheduler\<close> (lines 240-247).\<close>

definition scheduler :: "engine \<Rightarrow> engine" where
  "scheduler w =
     (if \<not> isPlaying w \<or> ctx w = None then w
      else let (t, w') = setTimeout lookahead (scheduler_loop w)
           in w'\<lparr>schedulerTimer := Some t\<rparr>)"

text \<open>\<open>ctx.resume()\<close> and \<open>ctx.suspend()\<close>: the context's state changes at the call.\<close>

definition resume :: "AudioContext \<Rightarrow> AudioContext" where
  "resume c = c\<lparr>state := Running\<rparr>"

definition suspend :: "AudioContext \<Rightarrow> AudioContext" where
  "suspend c = c\<lparr>state := Suspended\<rparr>"

text \<open>\<open>start\<close> (lines 79-89), in three parts: the two statements before the \<open>isPlaying\<close>
  check (lines 80-81), the sources (lines 83-86), and the first scheduler pass (lines 87-88).\<close>

definition start_context :: "engine \<Rightarrow> engine" where
  "start_context w =
     (let w1 = (if ctx w = None then init w else w)
      in case ctx w1 of
           None \<Rightarrow> w1
         | Some c \<Rightarrow> if state c = Suspended then w1\<lparr>ctx := Some (resume c)\<rparr> else w1)"

definition start_sources :: "engine \<Rightarrow> engine" where
  "start_sources w = startTrainRumble (startRainNoise (startDrone (w\<lparr>isPlaying := True\<rparr>)))"

definition start_scheduler :: "engine \<Rightarrow> engine" where
  "start_scheduler w =
     scheduler (case ctx w of None \<Rightarrow> w | Some c \<Rightarrow> w\<lparr>nextNoteTime := currentTime c\<rparr>)"

definition start :: "engine \<Rightarrow> engine" where
  "start w =
     (let w1 = start_context w
      in if isPlaying w1 then w1 else start_scheduler (start_sources w1))"

text \<open>\<open>stop\<close> (lines 91-95). \<open>if (this.schedulerTimer)\<close> is false for \<open>null\<close> and for 0.\<close>

definition stop :: "engine \<Rightarrow> engine" where
  "stop w =
     (let w1 = w\<lparr>isPlaying := False\<rparr>;
          w2 = (case ctx w1 of None \<Rightarrow> w1 | Some c \<Rightarrow> w1\<lparr>ctx := Some (suspend c)\<rparr>)
      in case schedulerTimer w2 of
           None \<Rightarrow> w2
         | Some t \<Rightarrow> if t \<noteq> 0 then clearTimeout t w2 else w2)"

text \<open>What happens to an engine: a call of one of its methods, a pending timeout that
  fires (the browser removes it and runs its callback, \<open>scheduler\<close>), or the audio clock of a
  running context moving on.\<close>

datatype event =
    Init | Start | Stop | Scheduler | NextNote | SetTrainVolume real | TriggerExplosion
  | Timeout nat | Elapse real

definition timeout_fires :: "nat \<Rightarrow> engine \<Rightarrow> engine" where
  "timeout_fires t w =
     (if t \<in> fst ` set (timeouts w) then scheduler (clearTimeout t w) else w)"

definition elapse :: "real \<Rightarrow> engine \<Rightarrow> engine" where
  "elapse d w =
     (case ctx w of
        None \<Rightarrow> w
      | Some c \<Rightarrow>
          if state c = Running \<and> 0 \<le> d then w\<lparr>ctx := Some (c\<lparr>currentTime := currentTime c + d\<rparr>)\<rparr>
          else w)"

fun step :: "event \<Rightarrow> engine \<Rightarrow> engine" where
  "step Init w = init w"
| "step Start w = start w"
| "step Stop w = stop w"
| "step Scheduler w = scheduler w"
| "step NextNote w = nextNote w"
| "step (SetTrainVolume v) w = setTrainVolume v w"
| "step TriggerExplosion w = triggerExplosion w"
| "step (Timeout t) w = timeout_fires t w"
| "step (Elapse d) w = elapse d w"

fun run :: "event list \<Rightarrow> engine \<Rightarrow> engine" where
  "run [] w = w"
| "run (e # es) w = run es (step e w)"

subsection \<open>What each method leaves alone\<close>

lemma start_source_simps [simp]:
  "ctx (start_source v w) = ctx w"
  "masterGain (start_source v w) = masterGain w"
  "reverbNode (start_source v w) = reverbNode w"
  "trainGain (start_source v w) = trainGain w"
  "isPlaying (start_source v w) = isPlaying w"
  "nextNoteTime (start_source v w) = nextNoteTime w"
  "schedulerTimer (start_source v w) = schedulerTimer w"
  "currentNote (start_source v w) = currentNote w"
  "started (start_source v w) = started w @ [v]"
  "scheduled (start_source v w) = scheduled w"
  "timeouts (start_source v w) = timeouts w"
  "nextTimeoutId (start_source v w) = nextTimeoutId w"
  "random (start_source v w) = random w"
  by (simp_all add: start_source_def)

lemma bass_voice_simps [simp]:
  "ctx (bass_voice b t w) = ctx w"
  "masterGain (bass_voice b t w) = masterGain w"
  "reverbNode (bass_voice b t w) = reverbNode w"
  "isPlaying (bass_voice b t w) = isPlaying w"
  "nextNoteTime (bass_voice b t w) = nextNoteTime w"
  "schedulerTimer (bass_voice b t w) = schedulerTimer w"
  "currentNote (bass_voice b t w) = currentNote w"
  "scheduled (bass_voice b t w) = scheduled w"
  "timeouts (bass_voice b t w) = timeouts w"
  "nextTimeoutId (bass_voice b t w) = nextTimeoutId w"
  by (simp_all add: bass_voice_def)

lemma arp_voice_simps [simp]:
  "ctx (arp_voice b t w) = ctx w"
  "masterGain (arp_voice b t w) = masterGain w"
  "reverbNode (arp_voice b t w) = reverbNode w"
  "isPlaying (arp_voice b t w) = isPlaying w"
  "nextNoteTime (arp_voice b t w) = nextNoteTime w"
  "schedulerTimer (arp_voice b t w) = schedulerTimer w"
  "currentNote (arp_voice b t w) = currentNote w"
  "scheduled (arp_voice b t w) = scheduled w"
  "timeouts (arp_voice b t w) = timeouts w"
  "nextTimeoutId (arp_voice b t w) = nextTimeoutId w"
  by (simp_all add: arp_voice_def Math_random_def)

lemma hat_voice_simps [simp]:
  "ctx (hat_voice b t w) = ctx w"
  "masterGain (hat_voice b t w) = masterGain w"
  "reverbNode (hat_voice b t w) = reverbNode w"
  "isPlaying (hat_voice b t w) = isPlaying w"
  "nextNoteTime (hat_voice b t w) = nextNoteTime w"
  "schedulerTimer (hat_voice b t w) = schedulerTimer w"
  "currentNote (hat_voice b t w) = currentNote w"
  "scheduled (hat_voice b t w) = scheduled w"
  "timeouts (hat_voice b t w) = timeouts w"
  "nextTimeoutId (hat_voice b t w) = nextTimeoutId w"
  by (simp_all add: hat_voice_def)

lemma scheduleNote_simps [simp]:
  "ctx (scheduleNote b t w) = ctx w"
  "masterGain (scheduleNote b t w) = masterGain w"
  "reverbNode (scheduleNote b t w) = reverbNode w"
  "isPlaying (scheduleNote b t w) = isPlaying w"
  "nextNoteTime (scheduleNote b t w) = nextNoteTime w"
  "schedulerTimer (scheduleNote b t w) = schedulerTimer w"
  "currentNote (scheduleNote b t w) = currentNote w"
  "timeouts (scheduleNote b t w) = timeouts w"
  "nextTimeoutId (scheduleNote b t w) = nextTimeoutId w"
  by (simp_all add: scheduleNote_def)

lemma scheduled_scheduleNote:
  "scheduled (scheduleNote b t w) =
     (if ctx w = None \<or> masterGain w = None \<or> reverbNode w = None then scheduled w
      else scheduled w @ [(b, t)])"
  by (simp add: scheduleNote_def)

lemma nextNote_simps [simp]:
  "ctx (nextNote w) = ctx w"
  "masterGain (nextNote w) = masterGain w"
  "reverbNode (nextNote w) = reverbNode w"
  "isPlaying (nextNote w) = isPlaying w"
  "schedulerTimer (nextNote w) = schedulerTimer w"
  "started (nextNote w) = started w"
  "scheduled (nextNote w) = scheduled w"
  "timeouts (nextNote w) = timeouts w"
  "nextTimeoutId (nextNote w) = nextTimeoutId w"
  by (simp_all add: nextNote_def Let_def)

lemma nextNoteTime_nextNote: "nextNoteTime (nextNote w) = nextNoteTime w + 3 / 20"
  by (simp add: nextNote_def Let_def tempo_def)

lemma currentNote_nextNote:
  "currentNote (nextNote w) = (if currentNote w + 1 = 16 then 0 else currentNote w + 1)"
  by (simp add: nextNote_def Let_def)

lemma ceiling_step:
  fixes d :: real
  assumes "0 < d"
  shows "nat \<lceil>(d - 3 / 20) / (3 / 20)\<rceil> < nat \<lceil>d / (3 / 20)\<rceil>"
proof -
  have step: "(d - 3 / 20) / (3 / 20) = d / (3 / 20) - 1"
    by (simp add: diff_divide_distrib)
  have "0 < d / (3 / 20)" using assms by simp
  then have "0 < \<lceil>d / (3 / 20)\<rceil>" by (simp only: less_ceiling_iff of_int_0)
  then show ?thesis
    unfolding step ceiling_diff_one by linarith
qed

termination scheduler_loop
proof (relation "measure (\<lambda>w. case ctx w of None \<Rightarrow> 0
          | Some c \<Rightarrow> nat \<lceil>(currentTime c + scheduleAheadTime - nextNoteTime w) / (3 / 20)\<rceil>)")
  show "wf (measure (\<lambda>w. case ctx w of None \<Rightarrow> 0
          | Some c \<Rightarrow> nat \<lceil>(currentTime c + scheduleAheadTime - nextNoteTime w) / (3 / 20)\<rceil>))"
    by simp
next
  fix w :: engine and c :: AudioContext
  assume c: "ctx w = Some c" and lt: "nextNoteTime w < currentTime c + scheduleAheadTime"
  let ?d = "currentTime c + scheduleAheadTime - nextNoteTime w"
  let ?w' = "nextNote (scheduleNote (currentNote w) (nextNoteTime w) w)"
  have "0 < ?d" using lt by simp
  then have less: "nat \<lceil>(?d - 3 / 20) / (3 / 20)\<rceil> < nat \<lceil>?d / (3 / 20)\<rceil>"
    by (rule ceiling_step)
  have c': "ctx ?w' = Some c"
    by (simp add: c)
  have t': "nextNoteTime ?w' = nextNoteTime w + 3 / 20"
    by (simp add: nextNoteTime_nextNote)
  have eq: "currentTime c + scheduleAheadTime - nextNoteTime ?w' = ?d - 3 / 20"
    unfolding t' by simp
  show "(?w', w)
      \<in> measure (\<lambda>w. case ctx w of None \<Rightarrow> 0
          | Some c \<Rightarrow> nat \<lceil>(currentTime c + scheduleAheadTime - nextNoteTime w) / (3 / 20)\<rceil>)"
    unfolding in_measure c c' option.case eq by (rule less)
qed

declare scheduler_loop.simps [simp del]

lemma init_simps [simp]:
  "isPlaying (init w) = isPlaying w"
  "nextNoteTime (init w) = nextNoteTime w"
  "schedulerTimer (init w) = schedulerTimer w"
  "currentNote (init w) = currentNote w"
  "started (init w) = started w"
  "scheduled (init w) = scheduled w"
  "timeouts (init w) = timeouts w"
  "nextTimeoutId (init w) = nextTimeoutId w"
  "trainGain (init w) = trainGain w"
  by (simp_all add: init_def)

lemma ctx_init: "ctx (init w) \<noteq> None"
  by (simp add: init_def)

lemma init_idle: "ctx w \<noteq> None \<Longrightarrow> init w = w"
  by (simp add: init_def)

lemma startDrone_simps [simp]:
  "ctx (startDrone w) = ctx w"
  "masterGain (startDrone w) = masterGain w"
  "reverbNode (startDrone w) = reverbNode w"
  "isPlaying (startDrone w) = isPlaying w"
  "nextNoteTime (startDrone w) = nextNoteTime w"
  "schedulerTimer (startDrone w) = schedulerTimer w"
  "currentNote (startDrone w) = currentNote w"
  "scheduled (startDrone w) = scheduled w"
  "timeouts (startDrone w) = timeouts w"
  "nextTimeoutId (startDrone w) = nextTimeoutId w"
  by (simp_all add: startDrone_def)

lemma startRainNoise_simps [simp]:
  "ctx (startRainNoise w) = ctx w"
  "masterGain (startRainNoise w) = masterGain w"
  "reverbNode (startRainNoise w) = reverbNode w"
  "isPlaying (startRainNoise w) = isPlaying w"
  "nextNoteTime (startRainNoise w) = nextNoteTime w"
  "schedulerTimer (startRainNoise w) = schedulerTimer w"
  "currentNote (startRainNoise w) = currentNote w"
  "scheduled (startRainNoise w) = scheduled w"
  "timeouts (startRainNoise w) = timeouts w"
  "nextTimeoutId (startRainNoise w) = nextTimeoutId w"
  by (simp_all add: startRainNoise_def)

lemma startTrainRumble_simps [simp]:
  "ctx (startTrainRumble w) = ctx w"
  "masterGain (startTrainRumble w) = masterGain w"
  "reverbNode (startTrainRumble w) = reverbNode w"
  "isPlaying (startTrainRumble w) = isPlaying w"
  "nextNoteTime (startTrainRumble w) = nextNoteTime w"
  "schedulerTimer (startTrainRumble w) = schedulerTimer w"
  "currentNote (startTrainRumble w) = currentNote w"
  "scheduled (startTrainRumble w) = scheduled w"
  "timeouts (startTrainRumble w) = timeouts w"
  "nextTimeoutId (startTrainRumble w) = nextTimeoutId w"
  by (simp_all add: startTrainRumble_def)

lemma setTrainVolume_simps [simp]:
  "ctx (setTrainVolume v w) = ctx w"
  "masterGain (setTrainVolume v w) = masterGain w"
  "reverbNode (setTrainVolume v w) = reverbNode w"
  "isPlaying (setTrainVolume v w) = isPlaying w"
  "nextNoteTime (setTrainVolume v w) = nextNoteTime w"
  "schedulerTimer (setTrainVolume v w) = schedulerTimer w"
  "currentNote (setTrainVolume v w) = currentNote w"
  "started (setTrainVolume v w) = started w"
  "scheduled (setTrainVolume v w) = scheduled w"
  "timeouts (setTrainVolume v w) = timeouts w"
  "nextTimeoutId (setTrainVolume v w) = nextTimeoutId w"
  by (simp_all add: setTrainVolume_def split: option.splits)

lemma triggerExplosion_simps [simp]:
  "ctx (triggerExplosion w) = ctx w"
  "masterGain (triggerExplosion w) = masterGain w"
  "reverbNode (triggerExplosion w) = reverbNode w"
  "isPlaying (triggerExplosion w) = isPlaying w"
  "nextNoteTime (triggerExplosion w) = nextNoteTime w"
  "schedulerTimer (triggerExplosion w) = schedulerTimer w"
  "currentNote (triggerExplosion w) = currentNote w"
  "scheduled (triggerExplosion w) = scheduled w"
  "timeouts (triggerExplosion w) = timeouts w"
  "nextTimeoutId (triggerExplosion w) = nextTimeoutId w"
  by (simp_all add: triggerExplosion_def Let_def split: option.splits)

lemma clearTimeout_simps [simp]:
  "ctx (clearTimeout t w) = ctx w"
  "masterGain (clearTimeout t w) = masterGain w"
  "reverbNode (clearTimeout t w) = reverbNode w"
  "isPlaying (clearTimeout t w) = isPlaying w"
  "nextNoteTime (clearTimeout t w) = nextNoteTime w"
  "schedulerTimer (clearTimeout t w) = schedulerTimer w"
  "currentNote (clearTimeout t w) = currentNote w"
  "started (clearTimeout t w) = started w"
  "scheduled (clearTimeout t w) = scheduled w"
  "timeouts (clearTimeout t w) = filter (\<lambda>p. fst p \<noteq> t) (timeouts w)"
  "nextTimeoutId (clearTimeout t w) = nextTimeoutId w"
  by (simp_all add: clearTimeout_def)

lemma elapse_simps [simp]:
  "masterGain (elapse d w) = masterGain w"
  "reverbNode (elapse d w) = reverbNode w"
  "isPlaying (elapse d w) = isPlaying w"
  "nextNoteTime (elapse d w) = nextNoteTime w"
  "schedulerTimer (elapse d w) = schedulerTimer w"
  "currentNote (elapse d w) = currentNote w"
  "started (elapse d w) = started w"
  "scheduled (elapse d w) = scheduled w"
  "timeouts (elapse d w) = timeouts w"
  "nextTimeoutId (elapse d w) = nextTimeoutId w"
  by (simp_all add: elapse_def split: option.splits)

lemma ctx_elapse: "(ctx (elapse d w) = None) = (ctx w = None)"
  by (simp add: elapse_def split: option.splits)

subsection \<open>The loop of the scheduler\<close>

lemma scheduler_loop_simps [simp]:
  "ctx (scheduler_loop w) = ctx w"
  "masterGain (scheduler_loop w) = masterGain w"
  "reverbNode (scheduler_loop w) = reverbNode w"
  "isPlaying (scheduler_loop w) = isPlaying w"
  "schedulerTimer (scheduler_loop w) = schedulerTimer w"
  "timeouts (scheduler_loop w) = timeouts w"
  "nextTimeoutId (scheduler_loop w) = nextTimeoutId w"
proof (induction w rule: scheduler_loop.induct)
  case (1 w)
  {
    case 1
    show ?case using "1.IH"(1) by (subst scheduler_loop.simps) (simp split: option.splits)
  next
    case 2
    show ?case using "1.IH"(2) by (subst scheduler_loop.simps) (simp split: option.splits)
  next
    case 3
    show ?case using "1.IH"(3) by (subst scheduler_loop.simps) (simp split: option.splits)
  next
    case 4
    show ?case using "1.IH"(4) by (subst scheduler_loop.simps) (simp split: option.splits)
  next
    case 5
    show ?case using "1.IH"(5) by (subst scheduler_loop.simps) (simp split: option.splits)
  next
    case 6
    show ?case using "1.IH"(6) by (subst scheduler_loop.simps) (simp split: option.splits)
  next
    case 7
    show ?case using "1.IH"(7) by (subst scheduler_loop.simps) (simp split: option.splits)
  }
qed

text \<open>The beat counter is inside the pattern of 16 steps.\<close>

definition on_beat :: "engine \<Rightarrow> bool" where
  "on_beat w = (currentNote w \<in> {0..15})"

lemma on_beat_cong: "currentNote v = currentNote w \<Longrightarrow> on_beat v = on_beat w"
  by (simp add: on_beat_def)

lemma currentNote_nextNote_range:
  "on_beat w \<Longrightarrow> on_beat (nextNote w)"
  by (auto simp add: on_beat_def currentNote_nextNote)

lemma scheduler_loop_range:
  "on_beat w \<Longrightarrow> on_beat (scheduler_loop w)"
proof (induction w rule: scheduler_loop.induct)
  case (1 w)
  let ?w' = "nextNote (scheduleNote (currentNote w) (nextNoteTime w) w)"
  show ?case
  proof (cases "ctx w")
    case None
    then have "scheduler_loop w = w" by (subst scheduler_loop.simps) simp
    then show ?thesis using "1.prems" by simp
  next
    case (Some c)
    show ?thesis
    proof (cases "nextNoteTime w < currentTime c + scheduleAheadTime")
      case True
      have "on_beat (scheduleNote (currentNote w) (nextNoteTime w) w)"
        using "1.prems" on_beat_cong [of "scheduleNote (currentNote w) (nextNoteTime w) w" w]
        by simp
      then have "on_beat ?w'" by (rule currentNote_nextNote_range)
      then have "on_beat (scheduler_loop ?w')" by (rule "1.IH" [OF Some True])
      moreover have "scheduler_loop w = scheduler_loop ?w'"
        using Some True by (subst scheduler_loop.simps) simp
      ultimately show ?thesis by simp
    next
      case False
      then have "scheduler_loop w = w" using Some by (subst scheduler_loop.simps) simp
      then show ?thesis using "1.prems" by simp
    qed
  qed
qed

lemma nextNoteTime_funpow:
  "nextNoteTime ((nextNote ^^ k) w) = nextNoteTime w + real k * (3 / 20)"
  by (induction k) (simp_all add: nextNoteTime_nextNote algebra_simps)

lemma currentNote_funpow_cong:
  "currentNote v = currentNote w \<Longrightarrow>
   currentNote ((nextNote ^^ k) v) = currentNote ((nextNote ^^ k) w)"
  by (induction k) (simp_all add: currentNote_nextNote)

lemma scheduler_loop_notes:
  assumes "ctx w = Some c" and "masterGain w \<noteq> None" and "reverbNode w \<noteq> None"
  shows "\<exists>n. scheduled (scheduler_loop w) =
            scheduled w @ map (\<lambda>k. (currentNote ((nextNote ^^ k) w), nextNoteTime ((nextNote ^^ k) w)))
              [0..<n]
          \<and> (\<forall>k. (k < n) = (nextNoteTime ((nextNote ^^ k) w) < currentTime c + scheduleAheadTime))
          \<and> nextNoteTime (scheduler_loop w) = nextNoteTime ((nextNote ^^ n) w)
          \<and> currentNote (scheduler_loop w) = currentNote ((nextNote ^^ n) w)"
  using assms
proof (induction w rule: scheduler_loop.induct)
  case (1 w)
  let ?bound = "currentTime c + scheduleAheadTime"
  let ?w' = "nextNote (scheduleNote (currentNote w) (nextNoteTime w) w)"
  let ?f = "\<lambda>v k. (currentNote ((nextNote ^^ k) v), nextNoteTime ((nextNote ^^ k) v))"
  show ?case
  proof (cases "nextNoteTime w < ?bound")
    case False
    have stop: "scheduler_loop w = w"
      using "1.prems"(1) False by (subst scheduler_loop.simps) simp
    have "\<forall>k. \<not> nextNoteTime ((nextNote ^^ k) w) < ?bound"
    proof
      fix k
      have "nextNoteTime w \<le> nextNoteTime ((nextNote ^^ k) w)"
        by (simp add: nextNoteTime_funpow)
      then show "\<not> nextNoteTime ((nextNote ^^ k) w) < ?bound" using False by linarith
    qed
    then show ?thesis
      by (intro exI [of _ 0]) (simp add: stop)
  next
    case True
    have go: "scheduler_loop w = scheduler_loop ?w'"
      using "1.prems"(1) True by (subst scheduler_loop.simps) simp
    have ctx': "ctx ?w' = Some c" and mg': "masterGain ?w' \<noteq> None"
      and rv': "reverbNode ?w' \<noteq> None"
      using "1.prems" by simp_all
    obtain n where
      sch: "scheduled (scheduler_loop ?w') = scheduled ?w' @ map (?f ?w') [0..<n]"
      and due: "\<forall>k. (k < n) = (nextNoteTime ((nextNote ^^ k) ?w') < ?bound)"
      and tm: "nextNoteTime (scheduler_loop ?w') = nextNoteTime ((nextNote ^^ n) ?w')"
      and cn: "currentNote (scheduler_loop ?w') = currentNote ((nextNote ^^ n) ?w')"
      using "1.IH" [OF "1.prems"(1) True ctx' mg' rv'] by blast
    have shiftT: "nextNoteTime ((nextNote ^^ k) ?w') = nextNoteTime ((nextNote ^^ Suc k) w)" for k
      by (simp add: nextNoteTime_funpow nextNoteTime_nextNote algebra_simps)
    have "currentNote ?w' = currentNote (nextNote w)"
      by (simp add: currentNote_nextNote)
    then have shiftN: "currentNote ((nextNote ^^ k) ?w') = currentNote ((nextNote ^^ Suc k) w)" for k
      using currentNote_funpow_cong [of ?w' "nextNote w" k] by (simp add: funpow_swap1)
    have first: "scheduled ?w' = scheduled w @ [(currentNote w, nextNoteTime w)]"
      using "1.prems" by (simp add: scheduled_scheduleNote)
    have "map (?f w) [0..<Suc n] = ?f w 0 # map (\<lambda>k. ?f w (Suc k)) [0..<n]"
      by (rule map_upt_Suc)
    also have "map (\<lambda>k. ?f w (Suc k)) [0..<n] = map (?f ?w') [0..<n]"
      by (simp only: shiftT shiftN)
    finally have maps: "map (?f w) [0..<Suc n] = (currentNote w, nextNoteTime w) # map (?f ?w') [0..<n]"
      by simp
    have sch': "scheduled (scheduler_loop w) = scheduled w @ map (?f w) [0..<Suc n]"
      unfolding go sch first maps by simp
    have due': "\<forall>k. (k < Suc n) = (nextNoteTime ((nextNote ^^ k) w) < ?bound)"
    proof
      fix k
      show "(k < Suc n) = (nextNoteTime ((nextNote ^^ k) w) < ?bound)"
      proof (cases k)
        case 0
        then show ?thesis using True by simp
      next
        case (Suc j)
        then show ?thesis using due shiftT [of j] by simp
      qed
    qed
    have tm': "nextNoteTime (scheduler_loop w) = nextNoteTime ((nextNote ^^ Suc n) w)"
      unfolding go tm shiftT ..
    have cn': "currentNote (scheduler_loop w) = currentNote ((nextNote ^^ Suc n) w)"
      unfolding go cn shiftN ..
    show ?thesis
      using sch' due' tm' cn' by (intro exI [of _ "Suc n"]) blast
  qed
qed

subsection \<open>scheduler, start and stop\<close>

lemma scheduler_idle: "\<not> isPlaying w \<or> ctx w = None \<Longrightarrow> scheduler w = w"
  by (auto simp add: scheduler_def)

lemma scheduler_active:
  "isPlaying w \<Longrightarrow> ctx w \<noteq> None \<Longrightarrow>
   scheduler w = (scheduler_loop w)
     \<lparr>timeouts := timeouts w @ [(nextTimeoutId w, lookahead)],
      nextTimeoutId := Suc (nextTimeoutId w),
      schedulerTimer := Some (nextTimeoutId w)\<rparr>"
  by (cases "ctx w") (simp_all add: scheduler_def setTimeout_def)

lemma scheduler_simps [simp]:
  "ctx (scheduler w) = ctx w"
  "masterGain (scheduler w) = masterGain w"
  "reverbNode (scheduler w) = reverbNode w"
  "isPlaying (scheduler w) = isPlaying w"
  by (cases "isPlaying w \<and> ctx w \<noteq> None"; auto simp add: scheduler_active scheduler_idle)+

lemma scheduler_range:
  assumes "on_beat w"
  shows "on_beat (scheduler w)"
proof (cases "isPlaying w \<and> ctx w \<noteq> None")
  case True
  then have "currentNote (scheduler w) = currentNote (scheduler_loop w)"
    by (simp add: scheduler_active)
  then show ?thesis
    using scheduler_loop_range [OF assms] on_beat_cong [of "scheduler w" "scheduler_loop w"]
    by simp
next
  case False
  then have "scheduler w = w" by (intro scheduler_idle) blast
  then show ?thesis using assms by simp
qed

lemma start_context_simps [simp]:
  "isPlaying (start_context w) = isPlaying w"
  "nextNoteTime (start_context w) = nextNoteTime w"
  "schedulerTimer (start_context w) = schedulerTimer w"
  "currentNote (start_context w) = currentNote w"
  "started (start_context w) = started w"
  "scheduled (start_context w) = scheduled w"
  "timeouts (start_context w) = timeouts w"
  "nextTimeoutId (start_context w) = nextTimeoutId w"
  "trainGain (start_context w) = trainGain w"
  by (simp_all add: start_context_def Let_def split: option.splits)

lemma ctx_start_context: "ctx (start_context w) \<noteq> None"
  using ctx_init [of w] by (auto simp add: start_context_def Let_def split: option.splits)

lemma start_context_resumes:
  "ctx w = Some c \<Longrightarrow> start_context w = w\<lparr>ctx := Some (resume c)\<rparr>"
  by (cases "state c") (simp_all add: start_context_def Let_def resume_def)

lemma start_sources_simps [simp]:
  "ctx (start_sources w) = ctx w"
  "masterGain (start_sources w) = masterGain w"
  "reverbNode (start_sources w) = reverbNode w"
  "isPlaying (start_sources w) = True"
  "nextNoteTime (start_sources w) = nextNoteTime w"
  "schedulerTimer (start_sources w) = schedulerTimer w"
  "currentNote (start_sources w) = currentNote w"
  "scheduled (start_sources w) = scheduled w"
  "timeouts (start_sources w) = timeouts w"
  "nextTimeoutId (start_sources w) = nextTimeoutId w"
  by (simp_all add: start_sources_def)

lemma start_scheduler_simps [simp]:
  "ctx (start_scheduler w) = ctx w"
  "masterGain (start_scheduler w) = masterGain w"
  "reverbNode (start_scheduler w) = reverbNode w"
  "isPlaying (start_scheduler w) = isPlaying w"
  by (simp_all add: start_scheduler_def split: option.splits)

lemma start_scheduler_range:
  assumes "on_beat w"
  shows "on_beat (start_scheduler w)"
proof (cases "ctx w")
  case None
  then show ?thesis using assms by (simp add: start_scheduler_def scheduler_range)
next
  case (Some c)
  have "on_beat (w\<lparr>nextNoteTime := currentTime c\<rparr>)"
    using assms on_beat_cong [of "w\<lparr>nextNoteTime := currentTime c\<rparr>" w] by simp
  then show ?thesis using Some by (simp add: start_scheduler_def scheduler_range)
qed

lemma ctx_start: "ctx (start w) \<noteq> None"
  using ctx_start_context [of w] by (simp add: start_def Let_def)

lemma start_range:
  assumes "on_beat w"
  shows "on_beat (start w)"
proof -
  have a: "on_beat (start_context w)"
    using assms on_beat_cong [of "start_context w" w] by simp
  then have "on_beat (start_sources (start_context w))"
    using on_beat_cong [of "start_sources (start_context w)" "start_context w"] by simp
  then have "on_beat (start_scheduler (start_sources (start_context w)))"
    by (rule start_scheduler_range)
  then show ?thesis using a by (simp add: start_def Let_def)
qed

lemma stop_simps [simp]:
  "isPlaying (stop w) = False"
  "masterGain (stop w) = masterGain w"
  "reverbNode (stop w) = reverbNode w"
  "nextNoteTime (stop w) = nextNoteTime w"
  "schedulerTimer (stop w) = schedulerTimer w"
  "currentNote (stop w) = currentNote w"
  "started (stop w) = started w"
  "scheduled (stop w) = scheduled w"
  "nextTimeoutId (stop w) = nextTimeoutId w"
  by (simp_all add: stop_def Let_def split: option.splits)

lemma ctx_stop: "ctx (stop w) = map_option suspend (ctx w)"
  by (simp add: stop_def Let_def split: option.splits)

lemma timeouts_stop:
  "timeouts (stop w) =
     (case schedulerTimer w of
        None \<Rightarrow> timeouts w
      | Some t \<Rightarrow> if t \<noteq> 0 then filter (\<lambda>p. fst p \<noteq> t) (timeouts w) else timeouts w)"
  by (simp add: stop_def Let_def split: option.splits)

lemma timeout_fires_range:
  assumes "on_beat w"
  shows "on_beat (timeout_fires t w)"
proof -
  have "on_beat (clearTimeout t w)"
    using assms on_beat_cong [of "clearTimeout t w" w] by simp
  then have "on_beat (scheduler (clearTimeout t w))" by (rule scheduler_range)
  then show ?thesis using assms by (simp add: timeout_fires_def)
qed

lemma step_range:
  "on_beat w \<Longrightarrow> on_beat (step e w)"
  by (cases e)
    (simp_all add: start_range scheduler_range currentNote_nextNote_range timeout_fires_range
      on_beat_cong [of "init w" w] on_beat_cong [of "stop w" w]
      on_beat_cong [of "setTrainVolume v w" w for v] on_beat_cong [of "triggerExplosion w" w]
      on_beat_cong [of "elapse d w" w for d])

lemma run_range:
  "on_beat w \<Longrightarrow> on_beat (run evs w)"
  by (induction evs arbitrary: w) (simp_all add: step_range)

lemma scheduled_grows:
  assumes "ctx w = Some c" and "masterGain w \<noteq> None" and "reverbNode w \<noteq> None"
    and "currentNote w \<in> {0..15}"
  shows "currentNote (scheduler_loop w) =
      (currentNote w + int (length (scheduled (scheduler_loop w)) - length (scheduled w))) mod 16"
proof -
  obtain n where
    sch: "scheduled (scheduler_loop w) =
            scheduled w @ map (\<lambda>k. (currentNote ((nextNote ^^ k) w), nextNoteTime ((nextNote ^^ k) w)))
              [0..<n]"
    and cn: "currentNote (scheduler_loop w) = currentNote ((nextNote ^^ n) w)"
    using scheduler_loop_notes [OF assms(1-3)] by blast
  have len: "length (scheduled (scheduler_loop w)) - length (scheduled w) = n"
    by (simp add: sch)
  have "currentNote v \<in> {0..15} \<Longrightarrow>
      currentNote ((nextNote ^^ k) v) = (currentNote v + int k) mod 16" for k v
  proof (induction k)
    case 0
    then show ?case by simp
  next
    case (Suc k)
    then have ih: "currentNote ((nextNote ^^ k) v) = (currentNote v + int k) mod 16" by simp
    have "(currentNote v + int k) mod 16 + 1 = 16 \<or> (currentNote v + int k) mod 16 + 1 < 16"
      using pos_mod_bound [of 16 "currentNote v + int k"] by linarith
    then show ?case
    proof
      assume top: "(currentNote v + int k) mod 16 + 1 = 16"
      then have "(currentNote v + int k + 1) mod 16 = 0"
        by (metis mod_add_left_eq mod_self)
      then show ?thesis using top by (simp add: currentNote_nextNote ih add.commute add.left_commute)
    next
      assume low: "(currentNote v + int k) mod 16 + 1 < 16"
      have "0 \<le> (currentNote v + int k) mod 16" by simp
      then have "((currentNote v + int k) mod 16 + 1) mod 16 = (currentNote v + int k) mod 16 + 1"
        using low by (simp add: mod_pos_pos_trivial)
      then have "(currentNote v + int k + 1) mod 16 = (currentNote v + int k) mod 16 + 1"
        by (simp add: mod_add_left_eq)
      then show ?thesis using low by (simp add: currentNote_nextNote ih add.commute add.left_commute)
    qed
  qed
  then show ?thesis using assms(4) cn len by simp
qed

lemma scheduler_loop_step:
  "ctx w \<noteq> None \<Longrightarrow> nextNoteTime w < currentTime (the (ctx w)) + scheduleAheadTime \<Longrightarrow>
   scheduler_loop w = scheduler_loop (nextNote (scheduleNote (currentNote w) (nextNoteTime w) w))"
  by (subst scheduler_loop.simps) auto

lemma scheduler_loop_stop:
  "ctx w \<noteq> None \<Longrightarrow> \<not> nextNoteTime w < currentTime (the (ctx w)) + scheduleAheadTime \<Longrightarrow>
   scheduler_loop w = w"
  by (subst scheduler_loop.simps) auto

lemma new_engine_simps [simp]:
  "ctx (new_engine rs st) = None"
  "masterGain (new_engine rs st) = None"
  "reverbNode (new_engine rs st) = None"
  "trainGain (new_engine rs st) = None"
  "isPlaying (new_engine rs st) = False"
  "nextNoteTime (new_engine rs st) = 0"
  "schedulerTimer (new_engine rs st) = None"
  "currentNote (new_engine rs st) = 0"
  "started (new_engine rs st) = []"
  "scheduled (new_engine rs st) = []"
  "timeouts (new_engine rs st) = []"
  "nextTimeoutId (new_engine rs st) = 1"
  "random (new_engine rs st) = rs"
  "newContextState (new_engine rs st) = st"
  by (simp_all add: new_engine_def)

text \<open>An engine that is playing: the state \<open>start()\<close> leaves a new engine in (one note
  scheduled at time 0, the timeout 1 pending), a quarter of a second of audio later.\<close>

definition playing_engine :: engine where
  "playing_engine =
     \<lparr> ctx = Some \<lparr> state = Running, currentTime = 0.25 \<rparr>,
       masterGain = Some \<lparr> gain = 0.4, targetAtTime = None \<rparr>,
       reverbNode = Some (),
       trainGain = Some \<lparr> gain = 0, targetAtTime = None \<rparr>,
       isPlaying = True, nextNoteTime = 0.15, schedulerTimer = Some 1, currentNote = 1,
       started = [DroneLfo, DroneOsc 65.41, DroneOsc (65.41 + 1), RainNoise, TrainRumble,
                  Bass 32.70 0],
       scheduled = [(0, 0)], timeouts = [(1, lookahead)], nextTimeoutId = 2,
       random = (\<lambda>n. 0), newContextState = Running \<rparr>"

lemma playing_engine_simps [simp]:
  "ctx playing_engine = Some \<lparr> state = Running, currentTime = 0.25 \<rparr>"
  "masterGain playing_engine = Some \<lparr> gain = 0.4, targetAtTime = None \<rparr>"
  "reverbNode playing_engine = Some ()"
  "isPlaying playing_engine = True"
  "nextNoteTime playing_engine = 0.15"
  "schedulerTimer playing_engine = Some 1"
  "currentNote playing_engine = 1"
  "scheduled playing_engine = [(0, 0)]"
  "timeouts playing_engine = [(1, lookahead)]"
  "nextTimeoutId playing_engine = 2"
  by (simp_all add: playing_engine_def)

lemma scheduled_loop_playing_engine:
  "scheduled (scheduler_loop playing_engine) = [(0, 0), (1, 3 / 20), (2, 3 / 10)]"
  by (simp add: scheduler_loop_step scheduler_loop_stop scheduleAheadTime_def
      nextNoteTime_nextNote currentNote_nextNote scheduled_scheduleNote)

subsection \<open>A playing engine has a context\<close>

definition has_context :: "engine \<Rightarrow> bool" where
  "has_context w = (isPlaying w \<longrightarrow> ctx w \<noteq> None)"

lemma has_context_step: "has_context w \<Longrightarrow> has_context (step e w)"
proof (cases e)
  case Init
  then show ?thesis using ctx_init [of w] by (simp add: has_context_def)
next
  case Start
  then show ?thesis using ctx_start [of w] by (simp add: has_context_def)
next
  case (Timeout t)
  assume "has_context w"
  then show ?thesis using Timeout by (simp add: has_context_def timeout_fires_def)
next
  case (Elapse d)
  assume "has_context w"
  then show ?thesis using Elapse ctx_elapse [of d w] by (simp add: has_context_def)
qed (simp_all add: has_context_def)

lemma has_context_run: "has_context w \<Longrightarrow> has_context (run evs w)"
  by (induction evs arbitrary: w) (simp_all add: has_context_step)

lemma has_context_reachable: "has_context (run evs (new_engine rs st))"
  by (rule has_context_run) (simp add: has_context_def)

lemma start_playing:
  assumes "isPlaying w" and "ctx w = Some c"
  shows "start w = w\<lparr>ctx := Some (resume c)\<rparr>"
proof -
  have "start_context w = w\<lparr>ctx := Some (resume c)\<rparr>"
    using assms(2) by (rule start_context_resumes)
  moreover have "isPlaying (start_context w)" using assms(1) by simp
  ultimately show ?thesis by (simp add: start_def Let_def)
qed

lemma start_fresh:
  "\<not> isPlaying w \<Longrightarrow> start w = start_scheduler (start_sources (start_context w))"
  by (simp add: start_def Let_def)

subsection \<open>A stopped engine stays silent\<close>

text \<open>The voices of scheduleNote among the started sources.\<close>

fun is_note :: "voice \<Rightarrow> bool" where
  "is_note (Bass f t) = True"
| "is_note (Arp t) = True"
| "is_note (Hat t) = True"
| "is_note v = False"

lemma started_triggerExplosion:
  "filter is_note (started (triggerExplosion w)) = filter is_note (started w)"
  by (simp add: triggerExplosion_def Let_def split: option.splits)

lemma timeout_fires_idle:
  "\<not> isPlaying w \<Longrightarrow>
   timeout_fires t w = (if t \<in> fst ` set (timeouts w) then clearTimeout t w else w)"
  by (simp add: timeout_fires_def scheduler_idle)

lemma quiet_step:
  assumes "e \<noteq> Start" and "\<not> isPlaying w"
  shows "\<not> isPlaying (step e w) \<and> scheduled (step e w) = scheduled w
       \<and> filter is_note (started (step e w)) = filter is_note (started w)
       \<and> set (timeouts (step e w)) \<subseteq> set (timeouts w)"
proof (cases e)
  case Start
  then show ?thesis using assms(1) by simp
next
  case Stop
  then show ?thesis by (auto simp add: timeouts_stop split: option.splits)
next
  case Scheduler
  then show ?thesis using assms(2) by (simp add: scheduler_idle)
next
  case TriggerExplosion
  then show ?thesis using assms(2) by (simp add: started_triggerExplosion)
next
  case (Timeout t)
  then show ?thesis using assms(2) by (auto simp add: timeout_fires_idle)
qed (use assms(2) in simp_all)

lemma quiet_run:
  "Start \<notin> set evs \<Longrightarrow> \<not> isPlaying w \<Longrightarrow>
   \<not> isPlaying (run evs w) \<and> scheduled (run evs w) = scheduled w
     \<and> filter is_note (started (run evs w)) = filter is_note (started w)
     \<and> set (timeouts (run evs w)) \<subseteq> set (timeouts w)"
proof (induction evs arbitrary: w)
  case Nil
  then show ?case by simp
next
  case (Cons e evs)
  have e: "e \<noteq> Start" and evs: "Start \<notin> set evs" using Cons.prems(1) by auto
  note s = quiet_step [OF e Cons.prems(2)]
  note r = Cons.IH [OF evs, of "step e w"]
  show ?case using s r by auto
qed

section \<open>Claims about the sequencer\<close>

text \<open>
  Claim C2. nextNote advances the beat counter currentNote by one and sets it to 0 when it
  reaches 16; one pass of the scheduler's loop advances it once per note it schedules, modulo
  16; and in every state the engine reaches from \<open>new CyberAudioEngine()\<close> by method calls,
  timeouts and the passing of audio time, currentNote is one of 0, ..., 15.
\<close>

theorem currentNote_wraps_at_16:
  "currentNote (nextNote w) = (if currentNote w + 1 = 16 then 0 else currentNote w + 1)
   \<and> (ctx v \<noteq> None \<and> masterGain v \<noteq> None \<and> reverbNode v \<noteq> None \<and> currentNote v \<in> {0..15} \<longrightarrow>
        currentNote (scheduler_loop v) =
          (currentNote v + int (length (scheduled (scheduler_loop v)) - length (scheduled v))) mod 16)
   \<and> currentNote (run evs (new_engine rs st)) \<in> {0..15}"
proof (intro conjI impI)
  show "currentNote (nextNote w) = (if currentNote w + 1 = 16 then 0 else currentNote w + 1)"
    by (rule currentNote_nextNote)
next
  assume "ctx v \<noteq> None \<and> masterGain v \<noteq> None \<and> reverbNode v \<noteq> None \<and> currentNote v \<in> {0..15}"
  then show "currentNote (scheduler_loop v) =
      (currentNote v + int (length (scheduled (scheduler_loop v)) - length (scheduled v))) mod 16"
    using scheduled_grows [of v] by auto
next
  have "on_beat (new_engine rs st)" by (simp add: on_beat_def new_engine_def)
  then have "on_beat (run evs (new_engine rs st))" by (rule run_range)
  then show "currentNote (run evs (new_engine rs st)) \<in> {0..15}" by (simp add: on_beat_def)
qed


theorem currentNote_wraps_at_16_witness:
  "currentNote (nextNote playing_engine) = 2
   \<and> length (scheduled (scheduler_loop playing_engine)) - length (scheduled playing_engine) = 2
   \<and> currentNote (scheduler_loop playing_engine) = 3
   \<and> currentNote (run [Start, Elapse 0.25, Timeout 1] (new_engine (\<lambda>n. 0) Running)) \<in> {0..15}"
  using currentNote_wraps_at_16
    [of playing_engine playing_engine "[Start, Elapse 0.25, Timeout 1]" "\<lambda>n. 0" Running]
  by (simp add: scheduled_loop_playing_engine)




text \<open>
  Claim C8. stop sets isPlaying to false, suspends the context and clears the timeout whose
  id schedulerTimer holds; a scheduler call of an engine that is not playing changes nothing
  (no note, no new timeout); so after stop, whatever happens to the engine short of a call of
  start (method calls, timeouts that fire, audio time), no call of scheduleNote is logged,
  no voice of a note is started and no timeout is added.
\<close>

theorem stop_silences_sequencer:
  "isPlaying (stop w) = False
   \<and> ctx (stop w) = map_option suspend (ctx w)
   \<and> (\<forall>t. schedulerTimer w = Some t \<and> t \<noteq> 0 \<longrightarrow> t \<notin> fst ` set (timeouts (stop w)))
   \<and> (\<not> isPlaying v \<longrightarrow> scheduler v = v)
   \<and> (Start \<notin> set evs \<longrightarrow>
        \<not> isPlaying (run evs (stop w))
        \<and> scheduled (run evs (stop w)) = scheduled (stop w)
        \<and> filter is_note (started (run evs (stop w))) = filter is_note (started (stop w))
        \<and> set (timeouts (run evs (stop w))) \<subseteq> set (timeouts (stop w)))"
proof (intro conjI allI impI)
  show "isPlaying (stop w) = False" by simp
  show "ctx (stop w) = map_option suspend (ctx w)" by (rule ctx_stop)
next
  fix t
  assume "schedulerTimer w = Some t \<and> t \<noteq> 0"
  then show "t \<notin> fst ` set (timeouts (stop w))" by (auto simp add: timeouts_stop)
next
  assume "\<not> isPlaying v"
  then show "scheduler v = v" by (simp add: scheduler_idle)
next
  assume a: "Start \<notin> set evs"
  have b: "\<not> isPlaying (stop w)" by simp
  note q = quiet_run [OF a b]
  show "\<not> isPlaying (run evs (stop w))" using q by blast
  show "scheduled (run evs (stop w)) = scheduled (stop w)" using q by blast
  show "filter is_note (started (run evs (stop w))) = filter is_note (started (stop w))"
    using q by blast
  show "set (timeouts (run evs (stop w))) \<subseteq> set (timeouts (stop w))" using q by blast
qed

theorem stop_silences_sequencer_witness:
  "schedulerTimer playing_engine = Some 1
   \<and> isPlaying (stop playing_engine) = False
   \<and> 1 \<notin> fst ` set (timeouts (stop playing_engine))
   \<and> scheduler (stop playing_engine) = stop playing_engine
   \<and> Start \<notin> set [Timeout 1, Elapse 1, Scheduler, TriggerExplosion, Init]
   \<and> scheduled (run [Timeout 1, Elapse 1, Scheduler, TriggerExplosion, Init] (stop playing_engine))
       = [(0, 0)]
   \<and> timeouts (run [Timeout 1, Elapse 1, Scheduler, TriggerExplosion, Init] (stop playing_engine))
       = []"
  using stop_silences_sequencer
    [of playing_engine "stop playing_engine"
        "[Timeout 1, Elapse 1, Scheduler, TriggerExplosion, Init]"]
  by (simp add: timeouts_stop)

text \<open>
  Claim C10. In a state the engine reaches from \<open>new CyberAudioEngine()\<close> in which isPlaying
  is true, start() returns at its isPlaying check: it has only resumed the context (a
  running context stays as it is), and isPlaying, nextNoteTime, currentNote, the started
  sources, the scheduled notes, the pending timeouts and schedulerTimer are as before.
\<close>

theorem start_idempotent_while_playing:
  assumes "w = run evs (new_engine rs st)" and "isPlaying w"
  shows "start w = w\<lparr>ctx := map_option resume (ctx w)\<rparr>
       \<and> isPlaying (start w) = isPlaying w
       \<and> nextNoteTime (start w) = nextNoteTime w
       \<and> currentNote (start w) = currentNote w
       \<and> started (start w) = started w
       \<and> scheduled (start w) = scheduled w
       \<and> timeouts (start w) = timeouts w
       \<and> schedulerTimer (start w) = schedulerTimer w
       \<and> masterGain (start w) = masterGain w
       \<and> reverbNode (start w) = reverbNode w
       \<and> trainGain (start w) = trainGain w"
proof -
  have "has_context w" unfolding assms(1) by (rule has_context_reachable)
  then obtain c where c: "ctx w = Some c" using assms(2) by (auto simp add: has_context_def)
  have "start w = w\<lparr>ctx := Some (resume c)\<rparr>" using assms(2) c by (rule start_playing)
  then show ?thesis using c by simp
qed

theorem start_idempotent_while_playing_witness:
  "isPlaying (run [Start] (new_engine (\<lambda>n. 0) Running))
   \<and> scheduled (run [Start, Start] (new_engine (\<lambda>n. 0) Running))
       = scheduled (run [Start] (new_engine (\<lambda>n. 0) Running))
   \<and> started (run [Start, Start] (new_engine (\<lambda>n. 0) Running))
       = started (run [Start] (new_engine (\<lambda>n. 0) Running))
   \<and> timeouts (run [Start, Start] (new_engine (\<lambda>n. 0) Running))
       = timeouts (run [Start] (new_engine (\<lambda>n. 0) Running))"
proof -
  have p: "isPlaying (run [Start] (new_engine (\<lambda>n. 0) Running))"
    by (simp add: start_fresh)
  show ?thesis
    using p start_idempotent_while_playing [OF refl p] by simp
qed

section \<open>MetropolisScene (MetropolisScene.tsx, lines 543-965)\<close>

subsection \<open>three.js objects and the page\<close>

datatype vec3 = Vector3 (vx: real) (vy: real) (vz: real)

definition vadd :: "vec3 \<Rightarrow> vec3 \<Rightarrow> vec3" where
  "vadd a b = Vector3 (vx a + vx b) (vy a + vy b) (vz a + vz b)"

definition vsub :: "vec3 \<Rightarrow> vec3 \<Rightarrow> vec3" where
  "vsub a b = Vector3 (vx a - vx b) (vy a - vy b) (vz a - vz b)"

definition distanceTo :: "vec3 \<Rightarrow> vec3 \<Rightarrow> real" where
  "distanceTo a b = sqrt ((vx a - vx b)\<^sup>2 + (vy a - vy b)\<^sup>2 + (vz a - vz b)\<^sup>2)"

text \<open>\<open>Vector3.lerp(v, alpha)\<close>: each component moves by \<open>(v - this) * alpha\<close>.\<close>

definition lerp :: "vec3 \<Rightarrow> vec3 \<Rightarrow> real \<Rightarrow> vec3" where
  "lerp a b alpha =
     Vector3 (vx a + (vx b - vx a) * alpha) (vy a + (vy b - vy a) * alpha)
       (vz a + (vz b - vz a) * alpha)"

text \<open>An object of the scene graph: an identity (what \<open>scene.add\<close> and \<open>scene.remove\<close>
  take), its position, its Euler rotation, \<open>visible\<close>, and a uniform scale.\<close>

record Object3D =
  oid :: nat
  position :: vec3
  rotation :: vec3
  visible :: bool
  scaling :: real

record PerspectiveCamera = Object3D +
  lookingAt :: vec3

text \<open>The interfaces Drone and Particle (lines 9-20); a bullet of SkyPodScene has the
  fields of Particle.\<close>

record Body =
  mesh :: Object3D
  velocity :: vec3

record Drone = Body +
  isActive :: bool
  respawnTimer :: real

record Particle = Body +
  life :: int

text \<open>What a scene component shares with the page: the pending \<open>requestAnimationFrame\<close>
  callbacks (each is \<open>animate\<close>) and the id the next request returns, the ids of the meshes
  that the animation added to the scene, the id of the next object created, and the sequence
  \<open>Math.random()\<close> reads.\<close>

record page =
  frameRequests :: "nat list"
  nextFrameId :: nat
  children :: "nat list"
  nextObjectId :: nat
  randoms :: "nat \<Rightarrow> real"

text \<open>\<open>n\<close> calls of \<open>Math.random()\<close> in a row: their results in the order of the calls.\<close>

definition draw :: "nat \<Rightarrow> 'a page_scheme \<Rightarrow> real list \<times> 'a page_scheme" where
  "draw n s = (map (randoms s) [0..<n], s\<lparr>randoms := (\<lambda>k. randoms s (n + k))\<rparr>)"

text \<open>\<open>new THREE.Mesh(...)\<close> at a position; \<open>scene.add\<close> (three.js takes the object out
  of its parent first, then appends it) and \<open>scene.remove\<close>.\<close>

definition new_mesh :: "vec3 \<Rightarrow> 'a page_scheme \<Rightarrow> Object3D \<times> 'a page_scheme" where
  "new_mesh p s =
     (\<lparr> oid = nextObjectId s, position = p, rotation = Vector3 0 0 0, visible = True,
        scaling = 1 \<rparr>,
      s\<lparr>nextObjectId := Suc (nextObjectId s)\<rparr>)"

definition scene_add :: "Object3D \<Rightarrow> 'a page_scheme \<Rightarrow> 'a page_scheme" where
  "scene_add m s = s\<lparr>children := filter (\<lambda>i. i \<noteq> oid m) (children s) @ [oid m]\<rparr>"

definition scene_remove :: "Object3D \<Rightarrow> 'a page_scheme \<Rightarrow> 'a page_scheme" where
  "scene_remove m s = s\<lparr>children := filter (\<lambda>i. i \<noteq> oid m) (children s)\<rparr>"

definition requestAnimationFrame :: "'a page_scheme \<Rightarrow> nat \<times> 'a page_scheme" where
  "requestAnimationFrame s =
     (nextFrameId s,
      s\<lparr>frameRequests := frameRequests s @ [nextFrameId s], nextFrameId := Suc (nextFrameId s)\<rparr>)"

definition cancelAnimationFrame :: "nat \<Rightarrow> 'a page_scheme \<Rightarrow> 'a page_scheme" where
  "cancelAnimationFrame i s = s\<lparr>frameRequests := filter (\<lambda>j. j \<noteq> i) (frameRequests s)\<rparr>"

text \<open>\<open>for (let i = n - 1; i >= 0; i--) body(i)\<close>, called with the length the array has
  when the loop starts.\<close>

fun for_down :: "nat \<Rightarrow> (nat \<Rightarrow> 's \<Rightarrow> 's) \<Rightarrow> 's \<Rightarrow> 's" where
  "for_down 0 body s = s"
| "for_down (Suc i) body s = for_down i body (body i s)"

text \<open>\<open>for (let i = 0; i < n; i++) body(i)\<close>, and \<open>array.forEach\<close> over the indices.\<close>

definition for_up :: "nat \<Rightarrow> (nat \<Rightarrow> 's \<Rightarrow> 's) \<Rightarrow> 's \<Rightarrow> 's" where
  "for_up n body s = foldl (\<lambda>t i. body i t) s [0..<n]"

subsection \<open>The state of the component\<close>

datatype camera_mode = ORBIT | CHASE

text \<open>
  The React state (\<open>isPaused\<close>, \<open>cameraMode\<close>, \<open>audioEnabled\<close>), the refs, and the variables
  of the effect that builds the scene (\<open>animationId\<close>, \<open>trainX\<close>, \<open>podX\<close>). The refs to the
  train, the gunship, the pods, the lasers, the rain, the camera and the engine are set before
  the first \<open>animate()\<close> and never reset, so they hold an object here and the \<open>if (ref.current)\<close>
  checks of \<open>animate\<close> pass. \<open>lasersRef\<close> and \<open>rainRef\<close> are the position arrays of the two
  geometries; \<open>laserDrawCount\<close> is the count of \<open>setDrawRange\<close>; \<open>rendered\<close> counts the calls of
  \<open>renderer.render\<close>.
\<close>

record metropolis = page +
  isPaused :: bool
  isPausedRef :: bool
  cameraMode :: camera_mode
  cameraModeRef :: camera_mode
  audioEnabled :: bool
  audioRef :: engine
  trainRef :: Object3D
  gunshipRef :: Object3D
  podsRef :: Object3D
  dronesRef :: "Drone list"
  lasersRef :: "real list"
  laserDrawCount :: real
  particlesRef :: "Particle list"
  rainRef :: "real list"
  cameraRef :: PerspectiveCamera
  controlsEnabled :: bool
  animationId :: nat
  trainX :: real
  podX :: real
  rendered :: nat

text \<open>What a frame takes from outside: \<open>Date.now()\<close>, and what \<open>controls.update()\<close> of the
  OrbitControls makes of the camera.\<close>

record frame =
  now :: real
  controlsUpdate :: "PerspectiveCamera \<Rightarrow> PerspectiveCamera"

text \<open>The constants of the effect (lines 657-658, 707, 720, 757-761).\<close>

definition trackHeight :: real where
  "trackHeight = 40"

definition trackLength :: real where
  "trackLength = 500"

definition droneCount :: nat where
  "droneCount = 5"

definition rainCount :: nat where
  "rainCount = 12000"

definition trackStart :: real where
  "trackStart = -200"

definition trackEnd :: real where
  "trackEnd = 200"

definition trainSpeed :: real where
  "trainSpeed = 2.0"

definition podSpeed :: real where
  "podSpeed = 0.2"

definition shakeIntensity :: real where
  "shakeIntensity = 0.2"

text \<open>\<open>getTrackOffset\<close> and \<open>getTrackAngle\<close> (lines 325-337); \<open>Math.atan2(d, 150)\<close> is the
  arc tangent of \<open>d / 150\<close>, the second argument being positive.\<close>

definition getTrackOffset :: "real \<Rightarrow> real" where
  "getTrackOffset x = (let curveStart = 50 in if x < curveStart then 0
     else let d = x - curveStart in (d * d) / 300)"

definition getTrackAngle :: "real \<Rightarrow> real" where
  "getTrackAngle x = (let curveStart = 50 in if x < curveStart then 0
     else let d = x - curveStart in arctan (d / 150))"

subsection \<open>togglePause, toggleCamera, toggleAudio (lines 570-592)\<close>

definition togglePause :: "metropolis \<Rightarrow> metropolis" where
  "togglePause s = (let nextState = \<not> isPaused s in s\<lparr>isPaused := nextState, isPausedRef := nextState\<rparr>)"

definition toggleCamera :: "metropolis \<Rightarrow> metropolis" where
  "toggleCamera s =
     (let nextMode = (if cameraMode s = ORBIT then CHASE else ORBIT)
      in s\<lparr>cameraMode := nextMode, cameraModeRef := nextMode\<rparr>)"

text \<open>\<open>toggleAudio\<close>, the \<open>await\<close> of \<open>init()\<close> taken at once.\<close>

definition toggleAudio :: "metropolis \<Rightarrow> metropolis" where
  "toggleAudio s =
     (if \<not> audioEnabled s
      then s\<lparr>audioRef := start (init (audioRef s)), audioEnabled := True\<rparr>
      else s\<lparr>audioRef := stop (audioRef s), audioEnabled := False\<rparr>)"

subsection \<open>animate (lines 765-942)\<close>

text \<open>Lines 771-776: the train and the pod move along the track unless paused.\<close>

definition advance_train :: "metropolis \<Rightarrow> metropolis" where
  "advance_train s =
     (let s1 = s\<lparr>trainX := trainX s + trainSpeed\<rparr>
      in if trainX s1 > trackEnd then s1\<lparr>trainX := trackStart\<rparr> else s1)"

definition advance_pod :: "metropolis \<Rightarrow> metropolis" where
  "advance_pod s =
     (let s1 = s\<lparr>podX := podX s + podSpeed\<rparr>
      in if podX s1 > trackEnd then s1\<lparr>podX := trackStart\<rparr> else s1)"

definition advance_vehicles :: "metropolis \<Rightarrow> metropolis" where
  "advance_vehicles s = (if \<not> isPausedRef s then advance_pod (advance_train s) else s)"

text \<open>Lines 778-800: the three groups are set on the track. \<open>place x y z a g\<close> is
  \<open>g.position.set(x, y, z); g.rotation.y = a\<close>.\<close>

definition place :: "real \<Rightarrow> real \<Rightarrow> real \<Rightarrow> real \<Rightarrow> Object3D \<Rightarrow> Object3D" where
  "place x y z a g =
     g\<lparr>position := Vector3 x y z, rotation := Vector3 (vx (rotation g)) a (vz (rotation g))\<rparr>"

definition place_train :: "metropolis \<Rightarrow> metropolis" where
  "place_train s =
     (let z = getTrackOffset (trainX s); angle = getTrackAngle (trainX s)
      in s\<lparr>trainRef := place (trainX s) trackHeight z (- angle) (trainRef s)\<rparr>)"

definition place_gunship :: "metropolis \<Rightarrow> metropolis" where
  "place_gunship s =
     (let gunX = trainX s - 28;
          actualGunX = (if gunX < trackStart then gunX + (trackEnd - trackStart) else gunX);
          z = getTrackOffset actualGunX; angle = getTrackAngle actualGunX
      in s\<lparr>gunshipRef := place actualGunX (trackHeight + 1) z (- angle) (gunshipRef s)\<rparr>)"

definition place_pods :: "metropolis \<Rightarrow> metropolis" where
  "place_pods s =
     (let z = getTrackOffset (podX s); angle = getTrackAngle (podX s)
      in s\<lparr>podsRef := place (podX s) trackHeight z (- angle) (podsRef s)\<rparr>)"

text \<open>Lines 802-828: the camera follows the train in CHASE mode, shaken by the three draws
  of lines 767-769; otherwise the orbit controls move it.\<close>

definition chase_camera :: "real list \<Rightarrow> metropolis \<Rightarrow> metropolis" where
  "chase_camera shake s =
     (let trainPos = position (trainRef s);
          angle = vy (rotation (trainRef s));
          distBehind = 40; distUp = 15;
          offsetZ = sin angle * distBehind;
          offsetX = cos angle * distBehind;
          targetX = vx trainPos - offsetX;
          targetY = vy trainPos + distUp;
          targetZ = vz trainPos + 25 + offsetZ;
          p = lerp (position (cameraRef s)) (Vector3 targetX targetY targetZ) 0.1;
          p' = Vector3 (vx p + shake ! 0) (vy p + shake ! 1) (vz p + shake ! 2);
          lookDist = 100;
          lookX = vx trainPos + cos angle * lookDist;
          lookZ = vz trainPos - sin angle * lookDist
      in s\<lparr>controlsEnabled := False,
           cameraRef := (cameraRef s)\<lparr>position := p', lookingAt := Vector3 lookX (vy trainPos) lookZ\<rparr>\<rparr>)"

definition orbit_camera :: "frame \<Rightarrow> metropolis \<Rightarrow> metropolis" where
  "orbit_camera inp s = s\<lparr>controlsEnabled := True, cameraRef := controlsUpdate inp (cameraRef s)\<rparr>"

definition move_camera :: "frame \<Rightarrow> real list \<Rightarrow> metropolis \<Rightarrow> metropolis" where
  "move_camera inp shake s =
     (if cameraModeRef s = CHASE then chase_camera shake s else orbit_camera inp s)"

text \<open>Lines 830-840: the volume of the train's rumble from its distance to the camera.\<close>

definition train_volume :: "metropolis \<Rightarrow> metropolis" where
  "train_volume s =
     (let dist = distanceTo (position (cameraRef s)) (position (trainRef s));
          vol = (if dist < 200 then (let v = 1 - dist / 200 in v * v * v) else 0)
      in s\<lparr>audioRef := setTrainVolume vol (audioRef s)\<rparr>)"

text \<open>Lines 843-850: every rain drop (the y of each triple) falls by 2 and starts again
  at 200 below -10.\<close>

definition rain_fall :: "real list \<Rightarrow> real list" where
  "rain_fall positions =
     map (\<lambda>i. if i mod 3 = 1
              then (let y = positions ! i - 2 in if y < -10 then 200 else y)
              else positions ! i)
       [0..<length positions]"

text \<open>Lines 856-870: a drone that is down counts its timer and comes back when it is 0.\<close>

definition respawn_drone :: "Drone \<Rightarrow> metropolis \<Rightarrow> Drone \<times> metropolis" where
  "respawn_drone d s =
     (let d1 = d\<lparr>respawnTimer := respawnTimer d - 1, mesh := (mesh d)\<lparr>visible := False\<rparr>\<rparr>
      in if respawnTimer d1 \<le> 0
         then let (r, s') = draw 5 s;
                  spawnX = (r ! 0 - 0.5) * trackLength;
                  spawnZ = - 50 - r ! 1 * 50
              in (d1\<lparr>isActive := True,
                     mesh := (mesh d1)\<lparr>visible := True, position := Vector3 spawnX (- 5) spawnZ\<rparr>,
                     velocity := Vector3 ((r ! 2 - 0.5) * 0.1) ((0.1 + r ! 3 * 0.1) * 0.5)
                                   ((0.2 + r ! 4 * 0.2) * 0.5)\<rparr>,
                  s')
         else (d1, s))"

text \<open>Lines 872-878: a drone that is up flies on and goes down when it leaves the scene.\<close>

definition fly_drone :: "real \<Rightarrow> Drone \<Rightarrow> Drone" where
  "fly_drone t d =
     (let p1 = vadd (position (mesh d)) (velocity d);
          p2 = Vector3 (vx p1) (vy p1 + sin (t * 0.005 + vx p1) * 0.05) (vz p1);
          d1 = d\<lparr>mesh := (mesh d)\<lparr>position := p2\<rparr>\<rparr>
      in if vy p2 > 60 \<or> vz p2 > 20 then d1\<lparr>isActive := False, respawnTimer := 60\<rparr> else d1)"

text \<open>Lines 890-907: one particle of an explosion (seven draws: the material, the offset
  of the position, the velocity).\<close>

definition spawn_debris :: "vec3 \<Rightarrow> metropolis \<Rightarrow> metropolis" where
  "spawn_debris pos s =
     (let (r, s1) = draw 7 s;
          (pMesh, s2) = new_mesh (Vector3 (vx pos + (r ! 1 - 0.5) * 1) (vy pos + (r ! 2 - 0.5) * 1)
                                   (vz pos + (r ! 3 - 0.5) * 1)) s1;
          s3 = scene_add pMesh s2
      in s3\<lparr>particlesRef := particlesRef s3 @
             [\<lparr> mesh = pMesh,
                velocity = Vector3 ((r ! 4 - 0.5) * 0.4) ((r ! 5 - 0.5) * 0.4) ((r ! 6 - 0.5) * 0.4),
                life = 60 \<rparr>]\<rparr>)"

text \<open>Lines 885-908: the gunship's shot destroys the drone.\<close>

definition explode_drone :: "Drone \<Rightarrow> metropolis \<Rightarrow> Drone \<times> metropolis" where
  "explode_drone d s =
     (let (r, s1) = draw 1 s;
          d1 = d\<lparr>isActive := False, respawnTimer := 30 + r ! 0 * 50\<rparr>;
          s2 = s1\<lparr>audioRef := triggerExplosion (audioRef s1)\<rparr>
      in (d1, for_up 6 (\<lambda>i. spawn_debris (position (mesh d1))) s2))"

text \<open>Lines 880-909: the gunship fires at a drone closer than 80, one frame in ten; the
  loop state carries \<open>laserPositions\<close>.\<close>

definition shoot_drone :: "vec3 \<Rightarrow> Drone \<Rightarrow> metropolis \<times> real list \<Rightarrow> Drone \<times> metropolis \<times> real list" where
  "shoot_drone gunshipPos d sl =
     (let s = fst sl; laserPositions = snd sl;
          dist = distanceTo (position (mesh d)) gunshipPos
      in if dist < 80
         then let (r, s1) = draw 1 s
              in if r ! 0 > 0.90
                 then let lp = laserPositions @ [vx gunshipPos, vy gunshipPos, vz gunshipPos]
                              @ [vx (position (mesh d)), vy (position (mesh d)), vz (position (mesh d))];
                          (r', s2) = draw 1 s1
                      in if r' ! 0 > 0.6
                         then let (d', s3) = explode_drone d s2 in (d', s3, lp)
                         else (d, s2, lp)
                 else (d, s1, laserPositions)
         else (d, s, laserPositions))"

text \<open>Lines 855-911: the body of \<open>dronesRef.current.forEach\<close> for the drone at index i.\<close>

definition drone_body :: "real \<Rightarrow> vec3 \<Rightarrow> nat \<Rightarrow> metropolis \<times> real list \<Rightarrow> metropolis \<times> real list" where
  "drone_body t gunshipPos i sl =
     (let s = fst sl; laserPositions = snd sl; d = dronesRef s ! i
      in if \<not> isActive d
         then let (d', s') = respawn_drone d s
              in (s'\<lparr>dronesRef := (dronesRef s')[i := d']\<rparr>, laserPositions)
         else let (d', s', lp) = shoot_drone gunshipPos (fly_drone t d) (s, laserPositions)
              in (s'\<lparr>dronesRef := (dronesRef s')[i := d']\<rparr>, lp))"

text \<open>Lines 913-924: the body of the loop over the particles, from the last to the first.\<close>

definition particle_body :: "nat \<Rightarrow> metropolis \<Rightarrow> metropolis" where
  "particle_body i s =
     (let p = particlesRef s ! i;
          v = Vector3 (vx (velocity p)) (vy (velocity p) - 0.01) (vz (velocity p));
          m = mesh p;
          m' = m\<lparr>position := vadd (position m) v,
                rotation := Vector3 (vx (rotation m) + 0.2) (vy (rotation m)) (vz (rotation m) + 0.2)\<rparr>;
          p' = p\<lparr>life := life p - 1, velocity := v, mesh := m'\<rparr>
      in if life p' \<le> 0 \<or> vy (position m') < - 10
         then scene_remove m'
                (s\<lparr>particlesRef := take i (particlesRef s) @ drop (Suc i) (particlesRef s)\<rparr>)
         else s\<lparr>particlesRef := (particlesRef s)[i := p']\<rparr>)"

text \<open>Lines 926-932 and 934-938: the laser segments of this frame, or none when paused. The
  array keeps its length; a write past its end is dropped.\<close>

definition show_lasers :: "real list \<Rightarrow> metropolis \<Rightarrow> metropolis" where
  "show_lasers laserPositions s =
     s\<lparr>lasersRef := map (\<lambda>i. if i < length laserPositions then laserPositions ! i else 0)
                      [0..<length (lasersRef s)],
       laserDrawCount := real (length laserPositions) / 3\<rparr>"

definition clear_lasers :: "metropolis \<Rightarrow> metropolis" where
  "clear_lasers s = s\<lparr>lasersRef := map (\<lambda>i. 0) [0..<length (lasersRef s)]\<rparr>"

text \<open>Lines 842-933: what moves while the scene is not paused.\<close>

definition simulate :: "frame \<Rightarrow> metropolis \<Rightarrow> metropolis" where
  "simulate inp s =
     (let s1 = s\<lparr>rainRef := rain_fall (rainRef s)\<rparr>;
          gunshipPos = vadd (position (gunshipRef s1)) (Vector3 3 3 0);
          (s2, laserPositions) =
             for_up (length (dronesRef s1)) (drone_body (now inp) gunshipPos) (s1, []);
          s3 = for_down (length (particlesRef s2)) particle_body s2
      in show_lasers laserPositions s3)"

definition render :: "metropolis \<Rightarrow> metropolis" where
  "render s = s\<lparr>rendered := Suc (rendered s)\<rparr>"

text \<open>\<open>animate\<close>, from the request of the next frame (line 766) to the render (line 941).\<close>

definition animate :: "frame \<Rightarrow> metropolis \<Rightarrow> metropolis" where
  "animate inp s =
     (let (i, s1) = requestAnimationFrame s;
          s2 = s1\<lparr>animationId := i\<rparr>;
          (r, s3) = draw 3 s2;
          shake = map (\<lambda>x. (x - 0.5) * shakeIntensity) r;
          s4 = place_pods (place_gunship (place_train (advance_vehicles s3)));
          s5 = train_volume (move_camera inp shake s4)
      in render (if \<not> isPausedRef s5 then simulate inp s5 else clear_lasers s5))"

subsection \<open>The scene as the effect builds it, and what happens to it\<close>

text \<open>The state when the effect reaches its first \<open>animate()\<close> (line 943): the groups and
  the five drones (their timers drawn, lines 709-718), the rain (three draws a drop, lines
  723-729), the lasers at zero, \<open>trainX = 0\<close> and \<open>podX = 40\<close>. \<open>rs\<close> is the random sequence
  from the first drone's draw on, \<open>e\<close> the engine the first effect created (line 566).\<close>

definition rain_coordinate :: "(nat \<Rightarrow> real) \<Rightarrow> nat \<Rightarrow> real" where
  "rain_coordinate rs j =
     (if j mod 3 = 0 then (rs j - 0.5) * 600
      else if j mod 3 = 1 then rs j * 200
      else (rs j - 0.5) * 400)"

definition group_at_origin :: "nat \<Rightarrow> Object3D" where
  "group_at_origin i =
     \<lparr> oid = i, position = Vector3 0 0 0, rotation = Vector3 0 0 0, visible = True, scaling = 1 \<rparr>"

definition built_scene :: "(nat \<Rightarrow> real) \<Rightarrow> engine \<Rightarrow> metropolis" where
  "built_scene rs e =
     \<lparr> frameRequests = [], nextFrameId = 1, children = [], nextObjectId = 3 + droneCount,
       randoms = (\<lambda>k. rs (droneCount + 3 * rainCount + k)),
       isPaused = False, isPausedRef = False, cameraMode = ORBIT, cameraModeRef = ORBIT,
       audioEnabled = False, audioRef = e,
       trainRef = group_at_origin 0, gunshipRef = group_at_origin 1, podsRef = group_at_origin 2,
       dronesRef = map (\<lambda>i. \<lparr> mesh = group_at_origin (3 + i), velocity = Vector3 0 0 0,
                               isActive = False, respawnTimer = rs i * 100 \<rparr>) [0..<droneCount],
       lasersRef = replicate (droneCount * 2 * 3) 0, laserDrawCount = 0,
       particlesRef = [],
       rainRef = map (rain_coordinate (\<lambda>j. rs (droneCount + j))) [0..<3 * rainCount],
       cameraRef = \<lparr> oid = 3 + droneCount, position = Vector3 (- 80) 60 120,
                     rotation = Vector3 0 0 0, visible = True, scaling = 1,
                     lookingAt = Vector3 0 0 0 \<rparr>,
       controlsEnabled = True, animationId = 0, trainX = 0, podX = 40, rendered = 0 \<rparr>"

text \<open>What happens to the mounted component: the browser runs the pending animation frame,
  a button is clicked, or something happens to the audio engine.\<close>

datatype scene_event =
    Frame frame | TogglePause | ToggleCamera | ToggleAudio | Audio event

definition animation_frame :: "frame \<Rightarrow> metropolis \<Rightarrow> metropolis" where
  "animation_frame inp s =
     (case frameRequests s of
        [] \<Rightarrow> s
      | i # rest \<Rightarrow> animate inp (s\<lparr>frameRequests := rest\<rparr>))"

fun scene_step :: "scene_event \<Rightarrow> metropolis \<Rightarrow> metropolis" where
  "scene_step (Frame inp) s = animation_frame inp s"
| "scene_step TogglePause s = togglePause s"
| "scene_step ToggleCamera s = toggleCamera s"
| "scene_step ToggleAudio s = toggleAudio s"
| "scene_step (Audio e) s = s\<lparr>audioRef := step e (audioRef s)\<rparr>"

fun scene_run :: "scene_event list \<Rightarrow> metropolis \<Rightarrow> metropolis" where
  "scene_run [] s = s"
| "scene_run (e # es) s = scene_run es (scene_step e s)"

text \<open>The mounted scene: the built scene after the first \<open>animate()\<close>.\<close>

definition mounted :: "frame \<Rightarrow> (nat \<Rightarrow> real) \<Rightarrow> engine \<Rightarrow> metropolis" where
  "mounted inp rs e = animate inp (built_scene rs e)"

subsection \<open>What each part of a frame leaves alone\<close>

lemma requestAnimationFrame_keeps [simp]:
  "children (snd (requestAnimationFrame (s :: metropolis))) = children s"
  "isPausedRef (snd (requestAnimationFrame s)) = isPausedRef s"
  "cameraModeRef (snd (requestAnimationFrame s)) = cameraModeRef s"
  "audioRef (snd (requestAnimationFrame s)) = audioRef s"
  "trainRef (snd (requestAnimationFrame s)) = trainRef s"
  "gunshipRef (snd (requestAnimationFrame s)) = gunshipRef s"
  "dronesRef (snd (requestAnimationFrame s)) = dronesRef s"
  "lasersRef (snd (requestAnimationFrame s)) = lasersRef s"
  "particlesRef (snd (requestAnimationFrame s)) = particlesRef s"
  "rainRef (snd (requestAnimationFrame s)) = rainRef s"
  "cameraRef (snd (requestAnimationFrame s)) = cameraRef s"
  "trainX (snd (requestAnimationFrame s)) = trainX s"
  "podX (snd (requestAnimationFrame s)) = podX s"
  "rendered (snd (requestAnimationFrame s)) = rendered s"
  by (simp_all add: requestAnimationFrame_def)

lemma draw_keeps [simp]:
  "children (snd (draw n (s :: metropolis))) = children s"
  "isPausedRef (snd (draw n s)) = isPausedRef s"
  "cameraModeRef (snd (draw n s)) = cameraModeRef s"
  "audioRef (snd (draw n s)) = audioRef s"
  "trainRef (snd (draw n s)) = trainRef s"
  "gunshipRef (snd (draw n s)) = gunshipRef s"
  "dronesRef (snd (draw n s)) = dronesRef s"
  "lasersRef (snd (draw n s)) = lasersRef s"
  "particlesRef (snd (draw n s)) = particlesRef s"
  "rainRef (snd (draw n s)) = rainRef s"
  "cameraRef (snd (draw n s)) = cameraRef s"
  "trainX (snd (draw n s)) = trainX s"
  "podX (snd (draw n s)) = podX s"
  "rendered (snd (draw n s)) = rendered s"
  by (simp_all add: draw_def)

lemma new_mesh_keeps [simp]:
  "children (snd (new_mesh p (s :: metropolis))) = children s"
  "isPausedRef (snd (new_mesh p s)) = isPausedRef s"
  "cameraModeRef (snd (new_mesh p s)) = cameraModeRef s"
  "audioRef (snd (new_mesh p s)) = audioRef s"
  "trainRef (snd (new_mesh p s)) = trainRef s"
  "gunshipRef (snd (new_mesh p s)) = gunshipRef s"
  "dronesRef (snd (new_mesh p s)) = dronesRef s"
  "lasersRef (snd (new_mesh p s)) = lasersRef s"
  "particlesRef (snd (new_mesh p s)) = particlesRef s"
  "rainRef (snd (new_mesh p s)) = rainRef s"
  "cameraRef (snd (new_mesh p s)) = cameraRef s"
  "trainX (snd (new_mesh p s)) = trainX s"
  "podX (snd (new_mesh p s)) = podX s"
  "rendered (snd (new_mesh p s)) = rendered s"
  by (simp_all add: new_mesh_def)

lemma scene_add_keeps [simp]:
  "isPausedRef (scene_add m (s :: metropolis)) = isPausedRef s"
  "cameraModeRef (scene_add m s) = cameraModeRef s"
  "audioRef (scene_add m s) = audioRef s"
  "trainRef (scene_add m s) = trainRef s"
  "gunshipRef (scene_add m s) = gunshipRef s"
  "dronesRef (scene_add m s) = dronesRef s"
  "lasersRef (scene_add m s) = lasersRef s"
  "particlesRef (scene_add m s) = particlesRef s"
  "rainRef (scene_add m s) = rainRef s"
  "cameraRef (scene_add m s) = cameraRef s"
  "trainX (scene_add m s) = trainX s"
  "podX (scene_add m s) = podX s"
  "rendered (scene_add m s) = rendered s"
  by (simp_all add: scene_add_def)

lemma scene_remove_keeps [simp]:
  "isPausedRef (scene_remove m (s :: metropolis)) = isPausedRef s"
  "cameraModeRef (scene_remove m s) = cameraModeRef s"
  "audioRef (scene_remove m s) = audioRef s"
  "trainRef (scene_remove m s) = trainRef s"
  "gunshipRef (scene_remove m s) = gunshipRef s"
  "dronesRef (scene_remove m s) = dronesRef s"
  "lasersRef (scene_remove m s) = lasersRef s"
  "particlesRef (scene_remove m s) = particlesRef s"
  "rainRef (scene_remove m s) = rainRef s"
  "cameraRef (scene_remove m s) = cameraRef s"
  "trainX (scene_remove m s) = trainX s"
  "podX (scene_remove m s) = podX s"
  "rendered (scene_remove m s) = rendered s"
  by (simp_all add: scene_remove_def)

lemma advance_train_keeps [simp]:
  "children (advance_train s) = children s"
  "isPausedRef (advance_train s) = isPausedRef s"
  "cameraModeRef (advance_train s) = cameraModeRef s"
  "audioRef (advance_train s) = audioRef s"
  "trainRef (advance_train s) = trainRef s"
  "gunshipRef (advance_train s) = gunshipRef s"
  "dronesRef (advance_train s) = dronesRef s"
  "lasersRef (advance_train s) = lasersRef s"
  "particlesRef (advance_train s) = particlesRef s"
  "rainRef (advance_train s) = rainRef s"
  "cameraRef (advance_train s) = cameraRef s"
  "podX (advance_train s) = podX s"
  "rendered (advance_train s) = rendered s"
  by (simp_all add: advance_train_def Let_def)

lemma advance_pod_keeps [simp]:
  "children (advance_pod s) = children s"
  "isPausedRef (advance_pod s) = isPausedRef s"
  "cameraModeRef (advance_pod s) = cameraModeRef s"
  "audioRef (advance_pod s) = audioRef s"
  "trainRef (advance_pod s) = trainRef s"
  "gunshipRef (advance_pod s) = gunshipRef s"
  "dronesRef (advance_pod s) = dronesRef s"
  "lasersRef (advance_pod s) = lasersRef s"
  "particlesRef (advance_pod s) = particlesRef s"
  "rainRef (advance_pod s) = rainRef s"
  "cameraRef (advance_pod s) = cameraRef s"
  "trainX (advance_pod s) = trainX s"
  "rendered (advance_pod s) = rendered s"
  by (simp_all add: advance_pod_def Let_def)

lemma place_train_keeps [simp]:
  "children (place_train s) = children s"
  "isPausedRef (place_train s) = isPausedRef s"
  "cameraModeRef (place_train s) = cameraModeRef s"
  "audioRef (place_train s) = audioRef s"
  "gunshipRef (place_train s) = gunshipRef s"
  "dronesRef (place_train s) = dronesRef s"
  "lasersRef (place_train s) = lasersRef s"
  "particlesRef (place_train s) = particlesRef s"
  "rainRef (place_train s) = rainRef s"
  "cameraRef (place_train s) = cameraRef s"
  "trainX (place_train s) = trainX s"
  "podX (place_train s) = podX s"
  "rendered (place_train s) = rendered s"
  by (simp_all add: place_train_def Let_def)

lemma place_gunship_keeps [simp]:
  "children (place_gunship s) = children s"
  "isPausedRef (place_gunship s) = isPausedRef s"
  "cameraModeRef (place_gunship s) = cameraModeRef s"
  "audioRef (place_gunship s) = audioRef s"
  "trainRef (place_gunship s) = trainRef s"
  "dronesRef (place_gunship s) = dronesRef s"
  "lasersRef (place_gunship s) = lasersRef s"
  "particlesRef (place_gunship s) = particlesRef s"
  "rainRef (place_gunship s) = rainRef s"
  "cameraRef (place_gunship s) = cameraRef s"
  "trainX (place_gunship s) = trainX s"
  "podX (place_gunship s) = podX s"
  "rendered (place_gunship s) = rendered s"
  by (simp_all add: place_gunship_def Let_def)

lemma place_pods_keeps [simp]:
  "children (place_pods s) = children s"
  "isPausedRef (place_pods s) = isPausedRef s"
  "cameraModeRef (place_pods s) = cameraModeRef s"
  "audioRef (place_pods s) = audioRef s"
  "trainRef (place_pods s) = trainRef s"
  "gunshipRef (place_pods s) = gunshipRef s"
  "dronesRef (place_pods s) = dronesRef s"
  "lasersRef (place_pods s) = lasersRef s"
  "particlesRef (place_pods s) = particlesRef s"
  "rainRef (place_pods s) = rainRef s"
  "cameraRef (place_pods s) = cameraRef s"
  "trainX (place_pods s) = trainX s"
  "podX (place_pods s) = podX s"
  "rendered (place_pods s) = rendered s"
  by (simp_all add: place_pods_def Let_def)

lemma move_camera_keeps [simp]:
  "children (move_camera inp shake s) = children s"
  "isPausedRef (move_camera inp shake s) = isPausedRef s"
  "cameraModeRef (move_camera inp shake s) = cameraModeRef s"
  "audioRef (move_camera inp shake s) = audioRef s"
  "trainRef (move_camera inp shake s) = trainRef s"
  "gunshipRef (move_camera inp shake s) = gunshipRef s"
  "dronesRef (move_camera inp shake s) = dronesRef s"
  "lasersRef (move_camera inp shake s) = lasersRef s"
  "particlesRef (move_camera inp shake s) = particlesRef s"
  "rainRef (move_camera inp shake s) = rainRef s"
  "trainX (move_camera inp shake s) = trainX s"
  "podX (move_camera inp shake s) = podX s"
  "rendered (move_camera inp shake s) = rendered s"
  by (simp_all add: move_camera_def chase_camera_def orbit_camera_def Let_def)

lemma train_volume_keeps [simp]:
  "children (train_volume s) = children s"
  "isPausedRef (train_volume s) = isPausedRef s"
  "cameraModeRef (train_volume s) = cameraModeRef s"
  "trainRef (train_volume s) = trainRef s"
  "gunshipRef (train_volume s) = gunshipRef s"
  "dronesRef (train_volume s) = dronesRef s"
  "lasersRef (train_volume s) = lasersRef s"
  "particlesRef (train_volume s) = particlesRef s"
  "rainRef (train_volume s) = rainRef s"
  "cameraRef (train_volume s) = cameraRef s"
  "trainX (train_volume s) = trainX s"
  "podX (train_volume s) = podX s"
  "rendered (train_volume s) = rendered s"
  by (simp_all add: train_volume_def Let_def)

lemma clear_lasers_keeps [simp]:
  "children (clear_lasers s) = children s"
  "isPausedRef (clear_lasers s) = isPausedRef s"
  "cameraModeRef (clear_lasers s) = cameraModeRef s"
  "audioRef (clear_lasers s) = audioRef s"
  "trainRef (clear_lasers s) = trainRef s"
  "gunshipRef (clear_lasers s) = gunshipRef s"
  "dronesRef (clear_lasers s) = dronesRef s"
  "particlesRef (clear_lasers s) = particlesRef s"
  "rainRef (clear_lasers s) = rainRef s"
  "cameraRef (clear_lasers s) = cameraRef s"
  "trainX (clear_lasers s) = trainX s"
  "podX (clear_lasers s) = podX s"
  "rendered (clear_lasers s) = rendered s"
  by (simp_all add: clear_lasers_def)

lemma show_lasers_keeps [simp]:
  "children (show_lasers lp s) = children s"
  "isPausedRef (show_lasers lp s) = isPausedRef s"
  "cameraModeRef (show_lasers lp s) = cameraModeRef s"
  "audioRef (show_lasers lp s) = audioRef s"
  "trainRef (show_lasers lp s) = trainRef s"
  "gunshipRef (show_lasers lp s) = gunshipRef s"
  "dronesRef (show_lasers lp s) = dronesRef s"
  "particlesRef (show_lasers lp s) = particlesRef s"
  "rainRef (show_lasers lp s) = rainRef s"
  "cameraRef (show_lasers lp s) = cameraRef s"
  "trainX (show_lasers lp s) = trainX s"
  "podX (show_lasers lp s) = podX s"
  "rendered (show_lasers lp s) = rendered s"
  by (simp_all add: show_lasers_def)

lemma render_keeps [simp]:
  "children (render s) = children s"
  "isPausedRef (render s) = isPausedRef s"
  "cameraModeRef (render s) = cameraModeRef s"
  "audioRef (render s) = audioRef s"
  "trainRef (render s) = trainRef s"
  "gunshipRef (render s) = gunshipRef s"
  "dronesRef (render s) = dronesRef s"
  "lasersRef (render s) = lasersRef s"
  "particlesRef (render s) = particlesRef s"
  "rainRef (render s) = rainRef s"
  "cameraRef (render s) = cameraRef s"
  "trainX (render s) = trainX s"
  "podX (render s) = podX s"
  by (simp_all add: render_def)

lemma advance_vehicles_keeps [simp]:
  "children (advance_vehicles s) = children s"
  "isPausedRef (advance_vehicles s) = isPausedRef s"
  "cameraModeRef (advance_vehicles s) = cameraModeRef s"
  "audioRef (advance_vehicles s) = audioRef s"
  "trainRef (advance_vehicles s) = trainRef s"
  "gunshipRef (advance_vehicles s) = gunshipRef s"
  "dronesRef (advance_vehicles s) = dronesRef s"
  "lasersRef (advance_vehicles s) = lasersRef s"
  "particlesRef (advance_vehicles s) = particlesRef s"
  "rainRef (advance_vehicles s) = rainRef s"
  "cameraRef (advance_vehicles s) = cameraRef s"
  "rendered (advance_vehicles s) = rendered s"
  by (simp_all add: advance_vehicles_def)

lemma advance_vehicles_paused: "isPausedRef s \<Longrightarrow> advance_vehicles s = s"
  by (simp add: advance_vehicles_def)

lemma trainX_advance_train:
  "trainX (advance_train s) =
     (if trainX s + trainSpeed > trackEnd then trackStart else trainX s + trainSpeed)"
  by (simp add: advance_train_def Let_def)

lemma podX_advance_pod:
  "podX (advance_pod s) = (if podX s + podSpeed > trackEnd then trackStart else podX s + podSpeed)"
  by (simp add: advance_pod_def Let_def)

lemma lasersRef_clear_lasers: "lasersRef (clear_lasers s) = replicate (length (lasersRef s)) 0"
  by (simp add: clear_lasers_def map_replicate_const)

lemma rendered_render: "rendered (render s) = Suc (rendered s)"
  by (simp add: render_def)

lemma audioRef_train_volume:
  "audioRef (train_volume s) =
     setTrainVolume
       (let dist = distanceTo (position (cameraRef s)) (position (trainRef s))
        in if dist < 200 then (let v = 1 - dist / 200 in v * v * v) else 0)
       (audioRef s)"
  by (simp add: train_volume_def Let_def)

lemma cameraRef_move_camera:
  "cameraModeRef s \<noteq> CHASE \<Longrightarrow> cameraRef (move_camera inp shake s) = controlsUpdate inp (cameraRef s)"
  by (simp add: move_camera_def orbit_camera_def)

lemma for_up_keeps:
  assumes "\<And>i t. f (body i t) = f t"
  shows "f (for_up n body s) = f s"
  unfolding for_up_def by (induction n) (simp_all add: assms)

lemma for_down_keeps:
  assumes "\<And>i t. f (body i t) = f t"
  shows "f (for_down n body s) = f s"
  by (induction n arbitrary: s) (simp_all add: assms)

lemma spawn_debris_keeps [simp]:
  "trainX (spawn_debris pos s) = trainX s"
  "podX (spawn_debris pos s) = podX s"
  "gunshipRef (spawn_debris pos s) = gunshipRef s"
  by (simp_all add: spawn_debris_def Let_def split_def)

lemma explode_drone_keeps [simp]:
  "trainX (snd (explode_drone d s)) = trainX s"
  "podX (snd (explode_drone d s)) = podX s"
  "gunshipRef (snd (explode_drone d s)) = gunshipRef s"
  by (simp_all add: explode_drone_def Let_def split_def for_up_keeps)

lemma respawn_drone_keeps [simp]:
  "trainX (snd (respawn_drone d s)) = trainX s"
  "podX (snd (respawn_drone d s)) = podX s"
  "gunshipRef (snd (respawn_drone d s)) = gunshipRef s"
  by (simp_all add: respawn_drone_def Let_def split_def)

lemma shoot_drone_keeps [simp]:
  "trainX (fst (snd (shoot_drone g d sl))) = trainX (fst sl)"
  "podX (fst (snd (shoot_drone g d sl))) = podX (fst sl)"
  "gunshipRef (fst (snd (shoot_drone g d sl))) = gunshipRef (fst sl)"
  by (simp_all add: shoot_drone_def Let_def split_def)

lemma drone_body_keeps [simp]:
  "trainX (fst (drone_body t g i sl)) = trainX (fst sl)"
  "podX (fst (drone_body t g i sl)) = podX (fst sl)"
  "gunshipRef (fst (drone_body t g i sl)) = gunshipRef (fst sl)"
  by (simp_all add: drone_body_def Let_def split_def)

lemma particle_body_keeps [simp]:
  "trainX (particle_body i s) = trainX s"
  "podX (particle_body i s) = podX s"
  "gunshipRef (particle_body i s) = gunshipRef s"
  by (simp_all add: particle_body_def Let_def)

lemma simulate_keeps [simp]:
  "trainX (simulate inp s) = trainX s"
  "podX (simulate inp s) = podX s"
  "gunshipRef (simulate inp s) = gunshipRef s"
proof -
  let ?s1 = "s\<lparr>rainRef := rain_fall (rainRef s)\<rparr>"
  let ?g = "vadd (position (gunshipRef ?s1)) (Vector3 3 3 0)"
  let ?loop = "for_up (length (dronesRef ?s1)) (drone_body (now inp) ?g) (?s1, [])"
  have a: "trainX (fst ?loop) = trainX s"
    using for_up_keeps [of "\<lambda>sl. trainX (fst sl)" "drone_body (now inp) ?g" _ "(?s1, [])"] by simp
  have b: "podX (fst ?loop) = podX s"
    using for_up_keeps [of "\<lambda>sl. podX (fst sl)" "drone_body (now inp) ?g" _ "(?s1, [])"] by simp
  have c: "gunshipRef (fst ?loop) = gunshipRef s"
    using for_up_keeps [of "\<lambda>sl. gunshipRef (fst sl)" "drone_body (now inp) ?g" _ "(?s1, [])"] by simp
  show "trainX (simulate inp s) = trainX s"
    using a for_down_keeps [of trainX particle_body _ "fst ?loop"]
    by (simp add: simulate_def Let_def split_def)
  show "podX (simulate inp s) = podX s"
    using b for_down_keeps [of podX particle_body _ "fst ?loop"]
    by (simp add: simulate_def Let_def split_def)
  show "gunshipRef (simulate inp s) = gunshipRef s"
    using c for_down_keeps [of gunshipRef particle_body _ "fst ?loop"]
    by (simp add: simulate_def Let_def split_def)
qed

lemma trainX_animate:
  "trainX (animate inp s) =
     (if isPausedRef s then trainX s
      else if trainX s + trainSpeed > trackEnd then trackStart else trainX s + trainSpeed)"
  by (simp add: animate_def Let_def split_def advance_vehicles_def trainX_advance_train)

lemma podX_animate:
  "podX (animate inp s) =
     (if isPausedRef s then podX s
      else if podX s + podSpeed > trackEnd then trackStart else podX s + podSpeed)"
  by (simp add: animate_def Let_def split_def advance_vehicles_def podX_advance_pod)

lemma position_place: "position (place x y z a g) = Vector3 x y z"
  by (simp add: place_def)

lemma gunshipRef_animate:
  "vx (position (gunshipRef (animate inp s))) =
     (let gunX = trainX (animate inp s) - 28
      in if gunX < trackStart then gunX + (trackEnd - trackStart) else gunX)"
proof -
  let ?s3 = "snd (draw 3 ((snd (requestAnimationFrame s))\<lparr>animationId := fst (requestAnimationFrame s)\<rparr>))"
  let ?s4 = "place_train (advance_vehicles ?s3)"
  have g: "gunshipRef (animate inp s) = gunshipRef (place_gunship ?s4)"
    by (simp add: animate_def Let_def split_def)
  have t: "trainX (animate inp s) = trainX ?s4"
    by (simp add: animate_def Let_def split_def)
  show ?thesis
    unfolding g t by (simp add: place_gunship_def Let_def position_place)
qed

subsection \<open>The vehicles stay on the track\<close>

definition on_track :: "metropolis \<Rightarrow> bool" where
  "on_track s =
     (trackStart \<le> trainX s \<and> trainX s \<le> trackEnd \<and> trackStart \<le> podX s \<and> podX s \<le> trackEnd
      \<and> vx (position (gunshipRef s)) =
          (let gunX = trainX s - 28
           in if gunX < trackStart then gunX + (trackEnd - trackStart) else gunX))"

lemma on_track_animate:
  assumes "trackStart \<le> trainX s" and "trainX s \<le> trackEnd"
    and "trackStart \<le> podX s" and "podX s \<le> trackEnd"
  shows "on_track (animate inp s)"
  using assms unfolding on_track_def
  by (simp add: gunshipRef_animate trainX_animate podX_animate trackStart_def trackEnd_def
      trainSpeed_def podSpeed_def)

lemma on_track_step: "on_track s \<Longrightarrow> on_track (scene_step e s)"
proof (cases e)
  case (Frame inp)
  assume a: "on_track s"
  show ?thesis
  proof (cases "frameRequests s")
    case Nil
    then show ?thesis using a Frame by (simp add: animation_frame_def)
  next
    case (Cons i rest)
    have "on_track (animate inp (s\<lparr>frameRequests := rest\<rparr>))"
      using a by (intro on_track_animate) (simp_all add: on_track_def)
    then show ?thesis using Frame Cons by (simp add: animation_frame_def)
  qed
next
  case TogglePause
  assume "on_track s"
  then show ?thesis using TogglePause by (simp add: on_track_def togglePause_def Let_def)
next
  case ToggleCamera
  assume "on_track s"
  then show ?thesis using ToggleCamera by (simp add: on_track_def toggleCamera_def Let_def)
next
  case ToggleAudio
  assume "on_track s"
  then show ?thesis using ToggleAudio by (simp add: on_track_def toggleAudio_def)
next
  case (Audio ev)
  assume "on_track s"
  then show ?thesis using Audio by (simp add: on_track_def)
qed

lemma on_track_run: "on_track s \<Longrightarrow> on_track (scene_run evs s)"
  by (induction evs arbitrary: s) (simp_all add: on_track_step)

lemma on_track_mounted: "on_track (mounted inp rs e)"
  unfolding mounted_def
  by (rule on_track_animate) (simp_all add: built_scene_def trackStart_def trackEnd_def)

lemma on_track_gunship:
  assumes "on_track s"
  shows "trackStart \<le> vx (position (gunshipRef s)) \<and> vx (position (gunshipRef s)) \<le> trackEnd"
  using assms unfolding on_track_def Let_def trackStart_def trackEnd_def
  by (auto split: if_splits)

section \<open>Claims about MetropolisScene\<close>

text \<open>
  Claim C3. A frame that is not paused adds trainSpeed to trainX and podSpeed to podX and
  sets each to trackStart = -200 when it exceeds trackEnd = 200; the gunship is placed at
  trainX - 28, plus the track length trackEnd - trackStart when that is below trackStart. In
  every state of the mounted scene (after the first animate() and any frames, button clicks
  and audio events), trainX, podX and the gunship's x-position lie in [-200, 200].
\<close>

theorem vehicles_stay_on_track:
  "trainX (animate inp s) =
     (if isPausedRef s then trainX s
      else if trainX s + trainSpeed > trackEnd then trackStart else trainX s + trainSpeed)
   \<and> podX (animate inp s) =
     (if isPausedRef s then podX s
      else if podX s + podSpeed > trackEnd then trackStart else podX s + podSpeed)
   \<and> vx (position (gunshipRef (animate inp s))) =
     (let gunX = trainX (animate inp s) - 28
      in if gunX < trackStart then gunX + (trackEnd - trackStart) else gunX)
   \<and> trackStart = - 200 \<and> trackEnd = 200
   \<and> trackStart \<le> trainX (scene_run evs (mounted inp0 rs e))
   \<and> trainX (scene_run evs (mounted inp0 rs e)) \<le> trackEnd
   \<and> trackStart \<le> podX (scene_run evs (mounted inp0 rs e))
   \<and> podX (scene_run evs (mounted inp0 rs e)) \<le> trackEnd
   \<and> trackStart \<le> vx (position (gunshipRef (scene_run evs (mounted inp0 rs e))))
   \<and> vx (position (gunshipRef (scene_run evs (mounted inp0 rs e)))) \<le> trackEnd"
proof -
  have inv: "on_track (scene_run evs (mounted inp0 rs e))"
    by (intro on_track_run on_track_mounted)
  then have "trackStart \<le> trainX (scene_run evs (mounted inp0 rs e))"
    "trainX (scene_run evs (mounted inp0 rs e)) \<le> trackEnd"
    "trackStart \<le> podX (scene_run evs (mounted inp0 rs e))"
    "podX (scene_run evs (mounted inp0 rs e)) \<le> trackEnd"
    by (simp_all add: on_track_def)
  moreover note on_track_gunship [OF inv]
  moreover have "trackStart = - 200" "trackEnd = 200"
    by (simp_all add: trackStart_def trackEnd_def)
  ultimately show ?thesis
    using trainX_animate [of inp s] podX_animate [of inp s] gunshipRef_animate [of inp s]
    by blast
qed

text \<open>A frame input and a built scene to run the claims on.\<close>

definition still_frame :: frame where
  "still_frame = \<lparr> now = 0, controlsUpdate = (\<lambda>c. c) \<rparr>"

definition demo_scene :: metropolis where
  "demo_scene = built_scene (\<lambda>k. 1 / 2) (new_engine (\<lambda>k. 0) Running)"

lemma demo_scene_simps [simp]:
  "isPausedRef demo_scene = False"
  "isPaused demo_scene = False"
  "trainX demo_scene = 0"
  "podX demo_scene = 40"
  "particlesRef demo_scene = []"
  "children demo_scene = []"
  "rendered demo_scene = 0"
  "cameraModeRef demo_scene = ORBIT"
  "lasersRef demo_scene = replicate (droneCount * 2 * 3) 0"
  by (simp_all add: demo_scene_def built_scene_def)

theorem vehicles_stay_on_track_witness:
  "trainX (animate still_frame demo_scene) = 2
   \<and> podX (animate still_frame demo_scene) = 40.2
   \<and> vx (position (gunshipRef (animate still_frame demo_scene))) = - 26
   \<and> trainX (animate still_frame (demo_scene\<lparr>trainX := 200, podX := 199.9\<rparr>)) = - 200
   \<and> podX (animate still_frame (demo_scene\<lparr>trainX := 200, podX := 199.9\<rparr>)) = - 200
   \<and> vx (position (gunshipRef (animate still_frame (demo_scene\<lparr>trainX := 200, podX := 199.9\<rparr>))))
       = 172
   \<and> - 200 \<le> trainX (scene_run [Frame still_frame, TogglePause, Frame still_frame]
          (mounted still_frame (\<lambda>k. 1 / 2) (new_engine (\<lambda>k. 0) Running)))
   \<and> trainX (scene_run [Frame still_frame, TogglePause, Frame still_frame]
          (mounted still_frame (\<lambda>k. 1 / 2) (new_engine (\<lambda>k. 0) Running))) \<le> 200"
  using vehicles_stay_on_track [of still_frame demo_scene
      "[Frame still_frame, TogglePause, Frame still_frame]" still_frame "\<lambda>k. 1 / 2"
      "new_engine (\<lambda>k. 0) Running"]
    vehicles_stay_on_track [of still_frame "demo_scene\<lparr>trainX := 200, podX := 199.9\<rparr>"]
  unfolding trackStart_def trackEnd_def trainSpeed_def podSpeed_def
  by simp

text \<open>
  Claim C4. A frame taken while isPausedRef is true leaves trainX, podX, the rain positions,
  every drone (its mesh with position and visibility, velocity, isActive, respawnTimer), the
  particle list, the meshes the animation added to the scene and the sources of the audio
  engine as they were, whether \<open>animate\<close> is called or the browser runs the pending frame.
  What the frame still does: the orbit controls (or the chase) move the camera, the train
  volume is set on the engine, the laser array is zeroed and the scene is rendered once.
\<close>

theorem paused_frame_changes_nothing:
  assumes "isPausedRef s"
  shows "trainX (animate inp s) = trainX s \<and> podX (animate inp s) = podX s
       \<and> rainRef (animate inp s) = rainRef s
       \<and> dronesRef (animate inp s) = dronesRef s
       \<and> particlesRef (animate inp s) = particlesRef s
       \<and> children (animate inp s) = children s
       \<and> started (audioRef (animate inp s)) = started (audioRef s)
       \<and> trainX (scene_step (Frame inp) s) = trainX s \<and> podX (scene_step (Frame inp) s) = podX s
       \<and> rainRef (scene_step (Frame inp) s) = rainRef s
       \<and> dronesRef (scene_step (Frame inp) s) = dronesRef s
       \<and> particlesRef (scene_step (Frame inp) s) = particlesRef s
       \<and> lasersRef (animate inp s) = replicate (length (lasersRef s)) 0
       \<and> rendered (animate inp s) = Suc (rendered s)
       \<and> (\<exists>vol. audioRef (animate inp s) = setTrainVolume vol (audioRef s))
       \<and> (cameraModeRef s = ORBIT \<longrightarrow> cameraRef (animate inp s) = controlsUpdate inp (cameraRef s))"
proof -
  have keep: "trainX (animate inp t) = trainX t \<and> podX (animate inp t) = podX t
       \<and> rainRef (animate inp t) = rainRef t
       \<and> dronesRef (animate inp t) = dronesRef t
       \<and> particlesRef (animate inp t) = particlesRef t
       \<and> children (animate inp t) = children t" if "isPausedRef t" for t
    using that by (simp add: animate_def Let_def split_def advance_vehicles_paused)
  have vol: "audioRef (animate inp s) =
      setTrainVolume
        (let t = move_camera inp
                   (map (\<lambda>x. (x - 0.5) * shakeIntensity)
                      (fst (draw 3 ((snd (requestAnimationFrame s))
                                      \<lparr>animationId := fst (requestAnimationFrame s)\<rparr>))))
                   (place_pods (place_gunship (place_train
                      (snd (draw 3 ((snd (requestAnimationFrame s))
                                      \<lparr>animationId := fst (requestAnimationFrame s)\<rparr>))))));
             dist = distanceTo (position (cameraRef t)) (position (trainRef t))
         in if dist < 200 then (let v = 1 - dist / 200 in v * v * v) else 0)
        (audioRef s)"
    using assms
    by (simp add: animate_def Let_def split_def advance_vehicles_paused audioRef_train_volume)
  then have snd: "started (audioRef (animate inp s)) = started (audioRef s)"
    by simp
  have las: "lasersRef (animate inp s) = replicate (length (lasersRef s)) 0"
    using assms
    by (simp add: animate_def Let_def split_def advance_vehicles_paused lasersRef_clear_lasers)
  have ren: "rendered (animate inp s) = Suc (rendered s)"
    using assms
    by (simp add: animate_def Let_def split_def advance_vehicles_paused rendered_render)
  have cam: "cameraRef (animate inp s) = controlsUpdate inp (cameraRef s)" if "cameraModeRef s = ORBIT"
    using assms that
    by (simp add: animate_def Let_def split_def advance_vehicles_paused cameraRef_move_camera)
  have step: "trainX (scene_step (Frame inp) s) = trainX s \<and> podX (scene_step (Frame inp) s) = podX s
       \<and> rainRef (scene_step (Frame inp) s) = rainRef s
       \<and> dronesRef (scene_step (Frame inp) s) = dronesRef s
       \<and> particlesRef (scene_step (Frame inp) s) = particlesRef s"
  proof (cases "frameRequests s")
    case Nil
    then show ?thesis by (simp add: animation_frame_def)
  next
    case (Cons i rest)
    have "isPausedRef (s\<lparr>frameRequests := rest\<rparr>)" using assms by simp
    from keep [OF this] show ?thesis using Cons by (simp add: animation_frame_def)
  qed
  show ?thesis
    using keep [OF assms] snd step las ren vol cam by blast
qed

theorem paused_frame_changes_nothing_witness:
  "isPausedRef (togglePause demo_scene)
   \<and> trainX (animate still_frame (togglePause demo_scene)) = 0
   \<and> podX (animate still_frame (togglePause demo_scene)) = 40
   \<and> particlesRef (animate still_frame (togglePause demo_scene)) = []
   \<and> lasersRef (animate still_frame (togglePause demo_scene)) = replicate (droneCount * 2 * 3) 0
   \<and> rendered (animate still_frame (togglePause demo_scene)) = 1"
proof -
  have p: "isPausedRef (togglePause demo_scene)"
    by (simp add: togglePause_def Let_def)
  show ?thesis
    using p paused_frame_changes_nothing [OF p, of still_frame]
    by (simp add: togglePause_def Let_def)
qed

section \<open>GafferScene: the pointer handlers (GafferScene.tsx, lines 196-243)\<close>

text \<open>
  The variables the handlers share: \<open>startPos\<close> (line 199), the vector \<open>mouse\<close> (line 198), the
  URLs passed to \<open>window.open\<close> and the cursor style of the container. A coordinate of
  \<open>mouse\<close> is \<open>None\<close> when the division by the size of the canvas is a division by zero
  (JavaScript then gives an infinity or NaN).
\<close>

record gaffer =
  startPos :: "real \<times> real"
  mouse :: "real option \<times> real option"
  opened :: "string list"
  cursor :: string

record PointerEvent =
  clientX :: real
  clientY :: real

text \<open>What the handler reads from the page when the event arrives: the rectangle of
  \<open>renderer.domElement.getBoundingClientRect()\<close>, and the answer of three.js, for the ray the
  camera casts through \<open>mouse\<close>, to \<open>raycaster.intersectObjects([...voxels, blackCircle])\<close>:
  the number of intersections with the voxels of the logo and the black circle.\<close>

record view =
  rectLeft :: real
  rectTop :: real
  rectWidth :: real
  rectHeight :: real
  intersectObjects :: "real option \<times> real option \<Rightarrow> nat"

definition js_divide :: "real \<Rightarrow> real \<Rightarrow> real option" where
  "js_divide a b = (if b = 0 then None else Some (a / b))"

text \<open>Lines 212-214 and 227-229: the pointer in normalised device coordinates.\<close>

definition pointer :: "view \<Rightarrow> PointerEvent \<Rightarrow> real option \<times> real option" where
  "pointer v e =
     (map_option (\<lambda>q. q * 2 - 1) (js_divide (clientX e - rectLeft v) (rectWidth v)),
      map_option (\<lambda>q. - q * 2 + 1) (js_divide (clientY e - rectTop v) (rectHeight v)))"




definition onPointerMove :: "view \<Rightarrow> PointerEvent \<Rightarrow> gaffer \<Rightarrow> gaffer" where
  "onPointerMove v e s =
     (let s1 = s\<lparr>mouse := pointer v e\<rparr>;
          intersects = intersectObjects v (mouse s1)
      in if intersects > 0 then s1\<lparr>cursor := ''pointer''\<rparr> else s1\<lparr>cursor := ''default''\<rparr>)"

text \<open>The pointer moves between a press and its release.\<close>

fun pointer_moves :: "(view \<times> PointerEvent) list \<Rightarrow> gaffer \<Rightarrow> gaffer" where
  "pointer_moves [] s = s"
| "pointer_moves (m # ms) s = pointer_moves ms (onPointerMove (fst m) (snd m) s)"

lemma pointer_moves_keeps [simp]:
  "startPos (pointer_moves ms s) = startPos s"
  "opened (pointer_moves ms s) = opened s"
  by (induction ms arbitrary: s) (simp_all add: onPointerMove_def Let_def)



section \<open>Claim about GafferScene\<close>





section \<open>SkyPodScene: the voxels of the environment (SkyPodScene.tsx, lines 90-234)\<close>

text \<open>
  The groups the voxels go to and the materials \<open>createVoxelMaterial\<close> made for them. The
  builder's state is the set \<open>occupied\<close> (line 102) and the meshes added so far, in the order of
  the \<open>group.add(mesh)\<close> calls. A key of \<open>occupied\<close> is the text \<open>x,y,z\<close> of three numbers, which
  determines the three numbers: the model keeps the triple.
\<close>

datatype voxel_group = PodGroup | MinigunGroup | EnvGroup | BoatGroup

datatype material = MatBody | MatBodyShade | MatGlass | MatConnector | MatGun
  | MatPylon | MatRail | MatCable | MatWood | MatWhite | MatRed | MatBlack

record voxel =
  parent :: voxel_group
  centre :: vec3
  coat :: material

record builder =
  occupied :: "(real \<times> real \<times> real) set"
  voxels :: "voxel list"

definition CONFIG_size :: real where
  "CONFIG_size = 1"

text \<open>\<open>addVoxelGeneric\<close> (lines 103-114).\<close>

definition add_mesh :: "voxel_group \<Rightarrow> real \<Rightarrow> real \<Rightarrow> real \<Rightarrow> material \<Rightarrow> builder \<Rightarrow> builder" where
  "add_mesh g x y z m s =
     s\<lparr>voxels := voxels s @
        [\<lparr> parent = g, centre = Vector3 (x * CONFIG_size) (y * CONFIG_size) (z * CONFIG_size),
           coat = m \<rparr>]\<rparr>"

definition addVoxelGeneric ::
  "voxel_group \<Rightarrow> real \<Rightarrow> real \<Rightarrow> real \<Rightarrow> material \<Rightarrow> bool \<Rightarrow> builder \<Rightarrow> builder" where
  "addVoxelGeneric g x y z m checkOccupied s =
     (if checkOccupied
      then (let key = (x, y, z)
            in if key \<in> occupied s then s
               else add_mesh g x y z m (s\<lparr>occupied := insert key (occupied s)\<rparr>))
      else add_mesh g x y z m s)"

text \<open>\<open>Math.round\<close> (halves go up) and \<open>THREE.MathUtils.lerp\<close>.\<close>

definition Math_round :: "real \<Rightarrow> real" where
  "Math_round x = of_int \<lfloor>x + 1 / 2\<rfloor>"

definition MathUtils_lerp :: "real \<Rightarrow> real \<Rightarrow> real \<Rightarrow> real" where
  "MathUtils_lerp x y t = (1 - t) * x + t * y"

definition railY :: real where
  "railY = 22"

text \<open>Lines 189-192: the rail, without the occupancy check. x runs from -120 to 119.\<close>

definition rail :: "builder \<Rightarrow> builder" where
  "rail s =
     for_up 240
       (\<lambda>k t. let x = - 120 + int k;
                  t1 = addVoxelGeneric EnvGroup (of_int x) railY 0 MatRail False t
              in if js_rem x 2 = 0
                 then addVoxelGeneric EnvGroup (of_int x) (railY + 1) 0 MatRail False t1
                 else t1)
       s"

text \<open>\<open>drawLine\<close> (lines 218-225). Its three calls join distinct points, so \<open>s\<close> is positive
  and \<open>i / s\<close> is a division by a positive number.\<close>

definition drawLine :: "real \<Rightarrow> real \<Rightarrow> real \<Rightarrow> real \<Rightarrow> real \<Rightarrow> real \<Rightarrow> builder \<Rightarrow> builder" where
  "drawLine x1 y1 z1 x2 y2 z2 s =
     (let dist = sqrt ((x2 - x1)\<^sup>2 + (y2 - y1)\<^sup>2 + (z2 - z1)\<^sup>2);
          n = \<lceil>dist * 2\<rceil>
      in for_up (nat n + 1)
           (\<lambda>i. let t = real i / of_int n
                in addVoxelGeneric EnvGroup (Math_round (MathUtils_lerp x1 x2 t))
                     (Math_round (MathUtils_lerp y1 y2 t)) (Math_round (MathUtils_lerp z1 z2 t))
                     MatCable True)
           s)"

text \<open>\<open>createPylon\<close> (lines 194-229): the column (h runs from -20 to 34.75 in steps of
  0.25, 220 values), the arm (61 steps) and the three cables.\<close>

definition pylon_column :: "real \<Rightarrow> builder \<Rightarrow> builder" where
  "pylon_column baseX s =
     for_up 220
       (\<lambda>k. let h = - 20 + real k * 0.25;
                xOff = sin (h * 0.05) * 5;
                zOff = cos (h * 0.05) * 2
            in for_up 2 (\<lambda>dx. for_up 2 (\<lambda>dz.
                 addVoxelGeneric EnvGroup (Math_round (baseX + xOff + real dx)) (Math_round h)
                   (Math_round (10 + zOff + real dz)) MatPylon True)))
       s"

definition pylon_arm :: "real \<Rightarrow> builder \<Rightarrow> builder" where
  "pylon_arm baseX s =
     (let armStartX = baseX + sin (35 * 0.05) * 5;
          armStartY = 35;
          armStartZ = 10 + cos (35 * 0.05) * 2;
          steps = 60
      in for_up (steps + 1)
           (\<lambda>i t0. let t = real i / real steps;
                       targetX = baseX - 10;
                       cx = MathUtils_lerp armStartX targetX t;
                       cy = MathUtils_lerp armStartY (railY + 2) t;
                       cz = MathUtils_lerp armStartZ 0 t;
                       arcY = sin (t * pi) * 5;
                       t1 = addVoxelGeneric EnvGroup (Math_round cx) (Math_round (cy + arcY))
                              (Math_round cz) MatPylon True t0
                   in addVoxelGeneric EnvGroup (Math_round cx) (Math_round (cy + arcY) - 1)
                        (Math_round cz) MatPylon True t1)
           s)"

definition createPylon :: "real \<Rightarrow> builder \<Rightarrow> builder" where
  "createPylon baseX s =
     drawLine baseX 32 10 (baseX - 15) railY 0
       (drawLine baseX 25 10 (baseX + 15) (- 10) 15
         (drawLine baseX 30 10 (baseX + 20) (- 10) 15
           (pylon_arm baseX (pylon_column baseX s))))"

text \<open>Lines 189-234: the environment. \<open>occupied.clear()\<close> comes after the rail.\<close>

definition build_environment :: "builder \<Rightarrow> builder" where
  "build_environment s = createPylon (- 40) (createPylon 40 ((rail s)\<lparr>occupied := {}\<rparr>))"

text \<open>Any sequence of calls of \<open>addVoxelGeneric\<close> with \<open>checkOccupied = true\<close>.\<close>

record placement =
  into :: voxel_group
  px :: real
  py :: real
  pz :: real
  with_coat :: material

fun place_checked :: "placement list \<Rightarrow> builder \<Rightarrow> builder" where
  "place_checked [] s = s"
| "place_checked (p # ps) s =
     place_checked ps (addVoxelGeneric (into p) (px p) (py p) (pz p) (with_coat p) True s)"

subsection \<open>One mesh per cell\<close>

text \<open>The meshes added after those of \<open>base\<close> are at distinct positions, and their cells
  are in \<open>occupied\<close>.\<close>

definition cell :: "voxel \<Rightarrow> real \<times> real \<times> real" where
  "cell v = (vx (centre v), vy (centre v), vz (centre v))"

definition one_per_cell :: "voxel list \<Rightarrow> builder \<Rightarrow> bool" where
  "one_per_cell base s =
     (\<exists>new. voxels s = base @ new \<and> distinct (map cell new) \<and> cell ` set new \<subseteq> occupied s)"

lemma addVoxelGeneric_present:
  "(x, y, z) \<in> occupied s \<Longrightarrow> addVoxelGeneric g x y z m True s = s"
  by (simp add: addVoxelGeneric_def)

lemma addVoxelGeneric_absent:
  "(x, y, z) \<notin> occupied s \<Longrightarrow>
   addVoxelGeneric g x y z m True s =
     s\<lparr>occupied := insert (x, y, z) (occupied s),
       voxels := voxels s @ [\<lparr> parent = g, centre = Vector3 x y z, coat = m \<rparr>]\<rparr>"
  by (simp add: addVoxelGeneric_def add_mesh_def CONFIG_size_def)

lemma one_per_cell_add:
  assumes "one_per_cell base s"
  shows "one_per_cell base (addVoxelGeneric g x y z m True s)"
proof (cases "(x, y, z) \<in> occupied s")
  case True
  then show ?thesis using assms by (simp add: addVoxelGeneric_present)
next
  case False
  obtain new where v: "voxels s = base @ new" and d: "distinct (map cell new)"
    and o: "cell ` set new \<subseteq> occupied s"
    using assms by (auto simp add: one_per_cell_def)
  let ?v = "\<lparr> parent = g, centre = Vector3 x y z, coat = m \<rparr>"
  have c: "cell ?v = (x, y, z)" by (simp add: cell_def)
  have fresh: "(x, y, z) \<notin> cell ` set new" using False o by blast
  have "voxels (addVoxelGeneric g x y z m True s) = base @ (new @ [?v])"
    using False v by (simp add: addVoxelGeneric_absent)
  moreover have "distinct (map cell (new @ [?v]))" using d fresh c by simp
  moreover have "cell ` set (new @ [?v]) \<subseteq> occupied (addVoxelGeneric g x y z m True s)"
    using False o c by (auto simp add: addVoxelGeneric_absent)
  ultimately show ?thesis unfolding one_per_cell_def by blast
qed

lemma for_up_invariant:
  assumes "\<And>i t. P t \<Longrightarrow> P (body i t)" and "P s"
  shows "P (for_up n body s)"
  unfolding for_up_def by (induction n) (simp_all add: assms)

lemma one_per_cell_for_up:
  assumes "\<And>i t. one_per_cell base t \<Longrightarrow> one_per_cell base (body i t)" and "one_per_cell base s"
  shows "one_per_cell base (for_up k body s)"
  using assms by (rule for_up_invariant [where P = "one_per_cell base"])

lemma one_per_cell_drawLine:
  "one_per_cell base s \<Longrightarrow> one_per_cell base (drawLine x1 y1 z1 x2 y2 z2 s)"
  unfolding drawLine_def Let_def
  by (intro one_per_cell_for_up one_per_cell_add) assumption+

lemma one_per_cell_column:
  "one_per_cell base s \<Longrightarrow> one_per_cell base (pylon_column baseX s)"
  unfolding pylon_column_def Let_def
  by (intro one_per_cell_for_up one_per_cell_add) assumption+

lemma one_per_cell_arm:
  "one_per_cell base s \<Longrightarrow> one_per_cell base (pylon_arm baseX s)"
  unfolding pylon_arm_def Let_def
  by (intro one_per_cell_for_up one_per_cell_add) assumption+

lemma one_per_cell_createPylon:
  "one_per_cell base s \<Longrightarrow> one_per_cell base (createPylon baseX s)"
  unfolding createPylon_def
  by (intro one_per_cell_drawLine one_per_cell_arm one_per_cell_column) assumption

lemma one_per_cell_place_checked:
  "one_per_cell base s \<Longrightarrow> one_per_cell base (place_checked ps s)"
  by (induction ps arbitrary: s) (simp_all add: one_per_cell_add)

lemma one_per_cell_cleared: "one_per_cell (voxels s) (s\<lparr>occupied := {}\<rparr>)"
  by (simp add: one_per_cell_def)

lemma distinct_cells_centres: "distinct (map cell vs) \<Longrightarrow> distinct (map centre vs)"
proof (induction vs)
  case Nil
  then show ?case by simp
next
  case (Cons v vs)
  have "centre v \<notin> centre ` set vs"
  proof
    assume "centre v \<in> centre ` set vs"
    then obtain w where "w \<in> set vs" and "centre v = centre w" by blast
    then have "cell v \<in> cell ` set vs" by (auto simp add: cell_def image_iff)
    then show False using Cons.prems by simp
  qed
  then show ?case using Cons by simp
qed

lemma one_per_cell_centres:
  "one_per_cell base s \<Longrightarrow> \<exists>new. voxels s = base @ new \<and> distinct (map centre new)"
  unfolding one_per_cell_def using distinct_cells_centres by blast

section \<open>Claim about the voxels of SkyPodScene\<close>

text \<open>
  Claim C9. addVoxelGeneric with checkOccupied = true returns without adding a mesh when the
  cell is in the occupied set, and otherwise records the cell and adds one mesh at it. So
  after occupied.clear(), any sequence of checked placements adds meshes at pairwise distinct
  positions; in particular the columns, arms and cables of the two pylons, built after the
  rail, are one mesh per cell.
\<close>

theorem one_mesh_per_cell:
  "((x, y, z) \<in> occupied s \<longrightarrow> addVoxelGeneric g x y z m True s = s)
   \<and> ((x, y, z) \<notin> occupied s \<longrightarrow>
        addVoxelGeneric g x y z m True s =
          s\<lparr>occupied := insert (x, y, z) (occupied s),
            voxels := voxels s @ [\<lparr> parent = g, centre = Vector3 x y z, coat = m \<rparr>]\<rparr>)
   \<and> (\<exists>new. voxels (place_checked ps (s\<lparr>occupied := {}\<rparr>)) = voxels s @ new
          \<and> distinct (map centre new))
   \<and> (\<exists>new. voxels (build_environment s) = voxels (rail s) @ new \<and> distinct (map centre new))"
proof (intro conjI impI)
  assume "(x, y, z) \<in> occupied s"
  then show "addVoxelGeneric g x y z m True s = s" by (rule addVoxelGeneric_present)
next
  assume "(x, y, z) \<notin> occupied s"
  then show "addVoxelGeneric g x y z m True s =
      s\<lparr>occupied := insert (x, y, z) (occupied s),
        voxels := voxels s @ [\<lparr> parent = g, centre = Vector3 x y z, coat = m \<rparr>]\<rparr>"
    by (rule addVoxelGeneric_absent)
next
  have "one_per_cell (voxels s) (place_checked ps (s\<lparr>occupied := {}\<rparr>))"
    by (intro one_per_cell_place_checked one_per_cell_cleared)
  then show "\<exists>new. voxels (place_checked ps (s\<lparr>occupied := {}\<rparr>)) = voxels s @ new
      \<and> distinct (map centre new)"
    by (rule one_per_cell_centres)
next
  have "one_per_cell (voxels (rail s)) (build_environment s)"
    unfolding build_environment_def
    by (intro one_per_cell_createPylon one_per_cell_cleared)
  then show "\<exists>new. voxels (build_environment s) = voxels (rail s) @ new \<and> distinct (map centre new)"
    by (rule one_per_cell_centres)
qed

text \<open>An empty builder, and the same cell placed twice with another one in between.\<close>

definition empty_builder :: builder where
  "empty_builder = \<lparr> occupied = {}, voxels = [] \<rparr>"

definition pylon_cell :: "real \<Rightarrow> placement" where
  "pylon_cell x = \<lparr> into = EnvGroup, px = x, py = 0, pz = 10, with_coat = MatPylon \<rparr>"

theorem one_mesh_per_cell_witness:
  "(40, 0, 10) \<in> occupied (place_checked [pylon_cell 40] empty_builder)
   \<and> addVoxelGeneric EnvGroup 40 0 10 MatCable True (place_checked [pylon_cell 40] empty_builder)
       = place_checked [pylon_cell 40] empty_builder
   \<and> (41, 0, 10) \<notin> occupied (place_checked [pylon_cell 40] empty_builder)
   \<and> voxels (addVoxelGeneric EnvGroup 41 0 10 MatCable True
               (place_checked [pylon_cell 40] empty_builder))
       = [\<lparr> parent = EnvGroup, centre = Vector3 40 0 10, coat = MatPylon \<rparr>,
          \<lparr> parent = EnvGroup, centre = Vector3 41 0 10, coat = MatCable \<rparr>]
   \<and> map centre (voxels (place_checked [pylon_cell 40, pylon_cell 41, pylon_cell 40] empty_builder))
       = [Vector3 40 0 10, Vector3 41 0 10]"
proof -
  have first: "place_checked [pylon_cell 40] empty_builder =
      \<lparr> occupied = {(40, 0, 10)},
        voxels = [\<lparr> parent = EnvGroup, centre = Vector3 40 0 10, coat = MatPylon \<rparr>] \<rparr>"
    using one_mesh_per_cell [of 40 0 10 empty_builder EnvGroup MatPylon]
    by (simp add: empty_builder_def pylon_cell_def)
  have a: "(40, 0, 10) \<in> occupied (place_checked [pylon_cell 40] empty_builder)"
    and b: "(41, 0, 10) \<notin> occupied (place_checked [pylon_cell 40] empty_builder)"
    unfolding first by simp_all
  note t40 = one_mesh_per_cell
    [of 40 0 10 "place_checked [pylon_cell 40] empty_builder" EnvGroup MatCable]
  note t41 = one_mesh_per_cell
    [of 41 0 10 "place_checked [pylon_cell 40] empty_builder" EnvGroup MatCable]
  have c: "addVoxelGeneric EnvGroup 40 0 10 MatCable True (place_checked [pylon_cell 40] empty_builder)
       = place_checked [pylon_cell 40] empty_builder"
    using t40 a by blast
  have d: "addVoxelGeneric EnvGroup 41 0 10 MatCable True (place_checked [pylon_cell 40] empty_builder)
       = (place_checked [pylon_cell 40] empty_builder)
           \<lparr>occupied := insert (41, 0, 10) (occupied (place_checked [pylon_cell 40] empty_builder)),
            voxels := voxels (place_checked [pylon_cell 40] empty_builder)
              @ [\<lparr> parent = EnvGroup, centre = Vector3 41 0 10, coat = MatCable \<rparr>]\<rparr>"
    using t41 b by blast
  have e: "map centre (voxels (place_checked [pylon_cell 40, pylon_cell 41, pylon_cell 40] empty_builder))
       = [Vector3 40 0 10, Vector3 41 0 10]"
    by (simp add: pylon_cell_def empty_builder_def addVoxelGeneric_def add_mesh_def CONFIG_size_def)
  have dv: "voxels (addVoxelGeneric EnvGroup 41 0 10 MatCable True
               (place_checked [pylon_cell 40] empty_builder))
       = [\<lparr> parent = EnvGroup, centre = Vector3 40 0 10, coat = MatPylon \<rparr>,
          \<lparr> parent = EnvGroup, centre = Vector3 41 0 10, coat = MatCable \<rparr>]"
    unfolding d unfolding first by simp
  show ?thesis using a b c dv e by blast
qed

end
